theory Spec2Isabelle
  imports Complex_Main "HOL-Library.Option_ord"
begin

section \<open>Tensors, errors and the TensorFlow primitives used by \<open>model_old.py\<close>\<close>

text \<open>
  A float32 tensor of shape \<open>(n)\<close> is a list of reals, one of shape \<open>(m, n)\<close> a list of
  \<open>m\<close> rows, one of shape \<open>(b, m, n)\<close> a list of \<open>b\<close> matrices. Arithmetic is exact: a
  float32 entry is read as the real number it stands for, and rounding is left out.
  A float that is no real number (\<open>inf\<close>, \<open>-inf\<close>, \<open>NaN\<close>) is the outcome \<open>NonFinite\<close>.
  In the loss functions it reaches the returned scalar through every product, sum,
  quotient and mean that follows, so the scalar is \<open>NonFinite\<close> too.

  The static shapes that TensorFlow checks while the graph is built (the placeholders
  of \<open>_add_placeholders\<close> fix them) are hypotheses of the theorems. Reads by index are
  guarded in the definitions.

  A failure is a value \<open>Inl e\<close>, and the first failure in program order is the result.
  TensorFlow raises the failures of graph construction before it runs anything, so where
  an earlier statement fails at run time and a later one while the graph is built, the
  program reports the later one. No theorem below depends on which of two failures is
  reported.
\<close>

type_synonym vec = "real list"
type_synonym mat = "real list list"
type_synonym tensor3 = "real list list list"

datatype error =
    IndexError | KeyError | NameError | AttributeError | AssertionError
  | ValueError | InvalidArgumentError | NonFinite

text \<open>A list comprehension whose body may fail: the first failure is the result.\<close>

fun collect :: "(error + 'a) list \<Rightarrow> error + 'a list" where
  "collect [] = Inr []"
| "collect (x # xs) =
     (case x of
        Inl e \<Rightarrow> Inl e
      | Inr v \<Rightarrow> (case collect xs of Inl e \<Rightarrow> Inl e | Inr vs \<Rightarrow> Inr (v # vs)))"

text \<open>
  The slice \<open>t[:, j]\<close> of a tensor of static shape \<open>(m, n)\<close>: building the graph fails
  with a \<open>ValueError\<close> when \<open>j\<close> is not below \<open>n\<close>.
\<close>

definition column :: "'a list list \<Rightarrow> nat \<Rightarrow> error + 'a list" where
  "column t j =
     (if list_all (\<lambda>row. j < length row) t then Inr (map (\<lambda>row. row ! j) t)
      else Inl ValueError)"

text \<open>Float division: \<open>x / 0\<close> is \<open>inf\<close>, \<open>-inf\<close> or \<open>NaN\<close>.\<close>

definition tf_div :: "real \<Rightarrow> real \<Rightarrow> error + real" where
  "tf_div x y = (if y = 0 then Inl NonFinite else Inr (x / y))"

text \<open>\<open>tf.reduce_mean\<close> of a vector; of an empty one it is \<open>NaN\<close>.\<close>

definition reduce_mean :: "vec \<Rightarrow> error + real" where
  "reduce_mean xs =
     (if xs = [] then Inl NonFinite else Inr (sum_list xs / real (length xs)))"

text \<open>\<open>tf.log\<close>: \<open>-inf\<close> at 0 and \<open>NaN\<close> below, neither of them a real.\<close>

definition tf_log :: "real \<Rightarrow> real option" where
  "tf_log x = (if 0 < x then Some (ln x) else None)"

section \<open>\<open>_mask_and_avg\<close>\<close>

text \<open>
  \<^verbatim>\<open>values_per_ex = sum(values_per_step) / dec_lens\<close>. Python's \<open>sum\<close> starts from the
  integer 0, which is what it returns for an empty list; the quotient then broadcasts
  it against \<open>dec_lens\<close>.
\<close>

definition values_per_ex :: "vec list \<Rightarrow> vec \<Rightarrow> (error + real) list" where
  "values_per_ex values_per_step dec_lens =
     (case values_per_step of
        [] \<Rightarrow> map (tf_div 0) dec_lens
      | v # vs \<Rightarrow> map2 tf_div (foldl (map2 (+)) v vs) dec_lens)"

text \<open>\<^verbatim>\<open>v * padding_mask[:, dec_step]\<close> for one pair of \<open>enumerate(values)\<close>.\<close>

definition mask_step :: "mat \<Rightarrow> nat \<times> vec \<Rightarrow> error + vec" where
  "mask_step padding_mask x =
     (case column padding_mask (fst x) of
        Inl e \<Rightarrow> Inl e
      | Inr m \<Rightarrow> Inr (map2 (*) (snd x) m))"

definition mask_and_avg :: "vec list \<Rightarrow> mat \<Rightarrow> error + real" where
  "mask_and_avg values padding_mask =
     (let dec_lens = map sum_list padding_mask in
      case collect (map (mask_step padding_mask) (enumerate 0 values)) of
        Inl e \<Rightarrow> Inl e
      | Inr values_per_step \<Rightarrow>
          (case collect (values_per_ex values_per_step dec_lens) of
             Inl e \<Rightarrow> Inl e
           | Inr per_ex \<Rightarrow> reduce_mean per_ex))"

text \<open>The masked per-step values, when every step has its mask column.\<close>

definition masked_steps :: "vec list \<Rightarrow> mat \<Rightarrow> vec list" where
  "masked_steps values padding_mask =
     map (\<lambda>(dec_step, v). map2 (*) v (map (\<lambda>row. row ! dec_step) padding_mask))
       (enumerate 0 values)"

text \<open>The numerators of \<open>values_per_ex\<close>: one sum per example.\<close>

definition step_sums :: "vec list \<Rightarrow> nat \<Rightarrow> vec" where
  "step_sums values_per_step n =
     (case values_per_step of [] \<Rightarrow> replicate n 0 | v # vs \<Rightarrow> foldl (map2 (+)) v vs)"

text \<open>The per-example averages: each example's sum divided by its own mask-row sum.\<close>

definition per_example_avg :: "vec list \<Rightarrow> mat \<Rightarrow> vec" where
  "per_example_avg values padding_mask =
     map2 (/) (step_sums (masked_steps values padding_mask) (length padding_mask))
       (map sum_list padding_mask)"

section \<open>The masked average, as the specification words it\<close>

text \<open>
  For a per-step, per-example value \<open>f t b\<close>: multiply by the padding mask at that step,
  sum over the steps, divide by the example's own mask-row sum (its unpadded decoder
  length), then average over the batch.
\<close>

definition masked_average :: "(nat \<Rightarrow> nat \<Rightarrow> real) \<Rightarrow> nat \<Rightarrow> mat \<Rightarrow> real" where
  "masked_average f n_steps padding_mask =
     sum_list (map (\<lambda>b. sum_list (map (\<lambda>t. f t b * padding_mask ! b ! t) [0..<n_steps])
                          / sum_list (padding_mask ! b))
                [0..<length padding_mask])
     / real (length padding_mask)"

section \<open>\<open>_coverage_loss\<close>\<close>

text \<open>
  The loop over \<open>attn_dists\<close>: the accumulator \<open>coverage\<close> is threaded through, and the
  list \<open>covlosses\<close> is returned. \<open>attn_dists[0]\<close> raises \<open>IndexError\<close> on an empty list.
\<close>

fun covlosses_loop :: "mat \<Rightarrow> mat list \<Rightarrow> vec list" where
  "covlosses_loop coverage [] = []"
| "covlosses_loop coverage (a # attn_dists) =
     map sum_list (map2 (map2 min) a coverage)
       # covlosses_loop (map2 (map2 (+)) coverage a) attn_dists"

definition coverage_loss :: "mat list \<Rightarrow> mat \<Rightarrow> error + real" where
  "coverage_loss attn_dists padding_mask =
     (case attn_dists of
        [] \<Rightarrow> Inl IndexError
      | a0 # _ \<Rightarrow>
          mask_and_avg (covlosses_loop (map (map (\<lambda>_. 0)) a0) attn_dists) padding_mask)"

text \<open>
  The coverage-loss term of step \<open>t\<close> for example \<open>b\<close>, as the specification words it:
  the minimum of the step's attention and the attention summed over the earlier steps,
  summed over the encoder positions.
\<close>

definition covloss_step :: "mat list \<Rightarrow> nat \<Rightarrow> nat \<Rightarrow> real" where
  "covloss_step attn_dists t b =
     sum_list (map (\<lambda>i. min (attn_dists ! t ! b ! i)
                          (sum_list (map (\<lambda>s. attn_dists ! s ! b ! i) [0..<t])))
                [0..<length (attn_dists ! t ! b)])"

text \<open>A tensor of shape \<open>(m, n)\<close>.\<close>

definition shaped :: "nat \<Rightarrow> nat \<Rightarrow> 'a list list \<Rightarrow> bool" where
  "shaped m n t = (length t = m \<and> list_all (\<lambda>row. length row = n) t)"



section \<open>\<open>_calc_final_dist\<close>\<close>

definition zeros :: "nat \<Rightarrow> nat \<Rightarrow> mat" where
  "zeros m n = replicate m (replicate n 0)"

text \<open>
  \<open>tf.scatter_nd(indices, updates, shape)\<close> for a result of rank 2: the result starts
  as zeros and every update is added at its index, so updates that share an index
  accumulate. The graph is built under \<^verbatim>\<open>tf.device("/gpu:0")\<close> (\<open>build_graph\<close>), and
  the GPU kernel skips an index that lies outside \<open>shape\<close>.
\<close>

fun scatter_update :: "(nat \<times> nat) \<times> real \<Rightarrow> mat \<Rightarrow> mat" where
  "scatter_update ((r, c), u) out =
     (if r < length out \<and> c < length (out ! r)
      then out[r := (out ! r)[c := out ! r ! c + u]]
      else out)"

definition scatter_nd :: "(nat \<times> nat) list list \<Rightarrow> mat \<Rightarrow> nat \<times> nat \<Rightarrow> mat" where
  "scatter_nd indices updates shape =
     fold scatter_update (concat (map2 zip indices updates)) (zeros (fst shape) (snd shape))"

text \<open>
  The arguments: the vocabulary size \<open>self._vocab.size()\<close>, the fed \<open>self._max_art_oovs\<close>,
  \<open>hps.batch_size\<close>, the fed \<open>self._enc_batch_extend_vocab\<close> of shape
  \<open>(batch_size, attn_len)\<close>, whose entries are word ids, and \<open>self.p_gens\<close>, a list over
  the decoder steps of tensors of shape \<open>(batch_size, 1)\<close>, here with the unit axis
  dropped. \<open>zip\<close> stops at the shorter list, as Python's does.
\<close>

definition calc_final_dist ::
  "nat \<Rightarrow> nat \<Rightarrow> nat \<Rightarrow> nat list list \<Rightarrow> vec list \<Rightarrow> mat list \<Rightarrow> mat list \<Rightarrow> mat list" where
  "calc_final_dist vsize max_art_oovs batch_size enc_batch_extend_vocab p_gens vocab_dists attn_dists =
     (let vocab_dists1 = map (\<lambda>(p_gen, dist). map2 (\<lambda>p row. map ((*) p) row) p_gen dist)
                           (zip p_gens vocab_dists);
          attn_dists1 = map (\<lambda>(p_gen, dist). map2 (\<lambda>p row. map ((*) (1 - p)) row) p_gen dist)
                          (zip p_gens attn_dists);
          extended_vsize = vsize + max_art_oovs;
          extra_zeros = zeros batch_size max_art_oovs;
          vocab_dists_extended = map (\<lambda>dist. map2 (@) dist extra_zeros) vocab_dists1;
          batch_nums = [0..<batch_size];
          attn_len = (case enc_batch_extend_vocab of [] \<Rightarrow> 0 | row # _ \<Rightarrow> length row);
          batch_nums_tiled = map (replicate attn_len) batch_nums;
          indices = map2 zip batch_nums_tiled enc_batch_extend_vocab;
          shape = (batch_size, extended_vsize);
          attn_dists_projected = map (\<lambda>copy_dist. scatter_nd indices copy_dist shape) attn_dists1
      in map (\<lambda>(vocab_dist, copy_dist). map2 (map2 (+)) vocab_dist copy_dist)
           (zip vocab_dists_extended attn_dists_projected))"

text \<open>
  The combiner for one decoder step and one example, as the specification words it: the
  vocabulary distribution scaled by \<open>p_gen\<close> and padded with \<open>max_art_oovs\<close> zeros, plus, in
  every slot \<open>j\<close>, the sum of the attention weights, scaled by \<open>1 - p_gen\<close>, of all
  encoder positions whose extended-vocabulary id is \<open>j\<close>.
\<close>

definition copy_mass :: "nat list \<Rightarrow> vec \<Rightarrow> nat \<Rightarrow> real" where
  "copy_mass ids weights j =
     sum_list (map (\<lambda>i. if ids ! i = j then weights ! i else 0) [0..<length ids])"

definition final_dist_spec :: "nat \<Rightarrow> nat \<Rightarrow> nat list \<Rightarrow> real \<Rightarrow> vec \<Rightarrow> vec \<Rightarrow> vec" where
  "final_dist_spec vsize max_art_oovs ids p_gen vocab_dist attn_dist =
     map2 (+) (map ((*) p_gen) vocab_dist @ replicate max_art_oovs 0)
       (map (copy_mass ids (map ((*) (1 - p_gen)) attn_dist)) [0..<vsize + max_art_oovs])"

section \<open>The pointer-generator loss of \<open>_add_seq2seq\<close>\<close>

text \<open>
  \<open>tf.gather_nd(params, indices)\<close> for \<open>params\<close> of rank 2 and a list of index pairs; the
  GPU kernel returns 0 for an index outside \<open>params\<close>.
\<close>

definition gather_nd :: "mat \<Rightarrow> (nat \<times> nat) list \<Rightarrow> vec" where
  "gather_nd params indices =
     map (\<lambda>(r, c). if r < length params \<and> c < length (params ! r) then params ! r ! c else 0)
       indices"

text \<open>\<^verbatim>\<open>losses = -tf.log(gold_probs)\<close>\<close>

definition neg_log :: "vec \<Rightarrow> error + vec" where
  "neg_log gold_probs =
     collect (map (\<lambda>g. case tf_log g of None \<Rightarrow> Inl NonFinite | Some l \<Rightarrow> Inr (- l)) gold_probs)"

text \<open>
  The body of the loop \<^verbatim>\<open>for dec_step, dist in enumerate(final_dists)\<close>; \<open>target_batch\<close>
  holds word ids and has shape \<open>(batch_size, max_dec_steps)\<close>.
\<close>

definition loss_step :: "nat \<Rightarrow> nat list list \<Rightarrow> nat \<times> mat \<Rightarrow> error + vec" where
  "loss_step batch_size target_batch x =
     (case column target_batch (fst x) of
        Inl e \<Rightarrow> Inl e
      | Inr targets \<Rightarrow> neg_log (gather_nd (snd x) (zip [0..<batch_size] targets)))"

definition pointer_gen_loss :: "nat \<Rightarrow> nat list list \<Rightarrow> mat \<Rightarrow> mat list \<Rightarrow> error + real" where
  "pointer_gen_loss batch_size target_batch dec_padding_mask final_dists =
     (case collect (map (loss_step batch_size target_batch) (enumerate 0 final_dists)) of
        Inl e \<Rightarrow> Inl e
      | Inr loss_per_step \<Rightarrow> mask_and_avg loss_per_step dec_padding_mask)"

text \<open>
  The loss of one step for one example, as the specification words it: the negative
  logarithm of the probability that the step's distribution gives to the target token.
\<close>

definition gold_loss :: "mat list \<Rightarrow> nat list list \<Rightarrow> nat \<Rightarrow> nat \<Rightarrow> real" where
  "gold_loss final_dists target_batch t b = - ln (final_dists ! t ! b ! (target_batch ! b ! t))"

section \<open>The decode branch of \<open>_add_seq2seq\<close>\<close>

text \<open>
  \<open>tf.nn.top_k(input, k)\<close> works on the last axis: the \<open>k\<close> largest entries of a row in
  descending order, with their indices; of two equal entries the one with the lower index
  comes first. It fails when a row has fewer than \<open>k\<close> entries.
\<close>

definition top_k_row :: "vec \<Rightarrow> nat \<Rightarrow> error + (vec \<times> nat list)" where
  "top_k_row row k =
     (if length row < k then Inl InvalidArgumentError
      else let best = take k (sort_key (\<lambda>(i, x). - x) (enumerate 0 row))
           in Inr (map snd best, map fst best))"

definition top_k :: "mat \<Rightarrow> nat \<Rightarrow> error + (mat \<times> nat list list)" where
  "top_k input k =
     (case collect (map (\<lambda>row. top_k_row row k) input) of
        Inl e \<Rightarrow> Inl e
      | Inr rows \<Rightarrow> Inr (map fst rows, map snd rows))"

text \<open>
  The branch \<^verbatim>\<open>if hps.mode == "decode"\<close>. It returns \<open>(self._topk_ids, self._topk_log_probs)\<close>;
  an entry \<open>None\<close> of the latter is the logarithm of a probability 0, that is \<open>-inf\<close>, which
  the order on \<open>real option\<close> puts below every number.
\<close>

definition decode_topk :: "nat \<Rightarrow> mat list \<Rightarrow> error + (nat list list \<times> real option list list)" where
  "decode_topk batch_size final_dists =
     (if length final_dists \<noteq> 1 then Inl AssertionError
      else case top_k (final_dists ! 0) (batch_size * 2) of
             Inl e \<Rightarrow> Inl e
           | Inr (topk_probs, topk_ids) \<Rightarrow> Inr (topk_ids, map (map tf_log) topk_probs))"

section \<open>Regularization, total loss and the loss that is minimized\<close>

text \<open>The hyperparameters \<open>self._hps\<close> (and \<open>FLAGS\<close>) that the modelled code reads.\<close>

record hps =
  hps_batch_size :: nat
  hps_pointer_gen :: bool
  hps_coverage :: bool
  hps_cov_loss_wt :: real
  hps_use_regularizer :: bool
  hps_beta_l2 :: real
  hps_use_label_information :: bool

text \<open>
  \<open>tf.nn.l2_loss(t)\<close> is \<open>sum(t ** 2) / 2\<close>; a tensor is given by the list of its entries.
  \<open>tf.contrib.layers.l2_regularizer(scale)\<close> rejects a negative scale, returns
  \<^verbatim>\<open>lambda _: None\<close> for the scale 0, and otherwise the function
  \<open>scale * tf.nn.l2_loss(weights)\<close>.
\<close>

definition l2_loss :: "vec \<Rightarrow> real" where
  "l2_loss t = sum_list (map (\<lambda>x. x * x) t) / 2"

definition l2_regularizer :: "real \<Rightarrow> error + (vec \<Rightarrow> real option)" where
  "l2_regularizer scale =
     (if scale < 0 then Inl ValueError
      else if scale = 0 then Inr (\<lambda>_. None)
      else Inr (\<lambda>weights. Some (scale * l2_loss weights)))"

text \<open>
  \<open>__init__\<close>: \<^verbatim>\<open>self._regularizer = tf.contrib.layers.l2_regularizer(scale=self.beta_l2)\<close>,
  where \<open>self.beta_l2\<close> is \<open>hps.beta_l2\<close> if \<open>hps.use_regularizer\<close> and \<open>0.0\<close> otherwise.
\<close>

definition init_regularizer :: "hps \<Rightarrow> error + (vec \<Rightarrow> real option)" where
  "init_regularizer h = l2_regularizer (if hps_use_regularizer h then hps_beta_l2 h else 0)"

text \<open>
  \<^verbatim>\<open>tf.get_variable(..., regularizer=self._regularizer)\<close> applies the regularizer to the new
  variable and, unless the result is \<open>None\<close>, adds it to the collection
  \<open>tf.GraphKeys.REGULARIZATION_LOSSES\<close>. So, with \<open>variables\<close> the variables created in this
  way, the collection holds these scalars:
\<close>

definition regularization_losses :: "(vec \<Rightarrow> real option) \<Rightarrow> vec list \<Rightarrow> real list" where
  "regularization_losses regularizer variables = List.map_filter regularizer variables"

text \<open>
  \<open>tf.contrib.layers.apply_regularization(regularizer, weights_list)\<close> raises
  \<open>ValueError\<close> for an empty list (its fallback, the collection \<open>tf.GraphKeys.WEIGHTS\<close>, is
  empty in this program); otherwise it applies \<open>regularizer\<close> to every element of the
  list, reads \<open>None\<close> as 0, and returns the sum.
\<close>

definition apply_regularization :: "(vec \<Rightarrow> real option) \<Rightarrow> vec list \<Rightarrow> error + real" where
  "apply_regularization regularizer weights_list =
     (if weights_list = [] then Inl ValueError
      else Inr (sum_list (map (\<lambda>w. case regularizer w of None \<Rightarrow> 0 | Some p \<Rightarrow> p)
                           weights_list)))"

text \<open>The attributes \<open>self._loss\<close>, \<open>self._coverage_loss\<close> and \<open>self._total_loss\<close>.\<close>

record model_losses =
  m_loss :: real
  m_coverage_loss :: "real option"
  m_total_loss :: "real option"

text \<open>
  The block \<^verbatim>\<open>with tf.variable_scope('loss')\<close> of \<open>_add_seq2seq\<close>. \<open>sequence_loss\<close> stands
  for the value of \<open>tf.contrib.seq2seq.sequence_loss\<close> in the baseline branch,
  \<open>variables\<close> for the variables that were created with \<open>regularizer=self._regularizer\<close>.
  The call passes the collection of regularization losses, a list of scalars, as the
  \<open>weights_list\<close> of \<open>apply_regularization\<close>.
\<close>

definition add_loss ::
  "hps \<Rightarrow> vec list \<Rightarrow> error + real \<Rightarrow> nat list list \<Rightarrow> mat \<Rightarrow> mat list \<Rightarrow> mat list \<Rightarrow>
   error + model_losses" where
  "add_loss h variables sequence_loss target_batch dec_padding_mask final_dists attn_dists =
     (case init_regularizer h of
        Inl e \<Rightarrow> Inl e
      | Inr regularizer \<Rightarrow>
     (case (if hps_use_regularizer h
            then apply_regularization regularizer
                   (map (\<lambda>p. [p]) (regularization_losses regularizer variables))
            else Inr 0) of
        Inl e \<Rightarrow> Inl e
      | Inr penalty \<Rightarrow>
     (case (if hps_pointer_gen h
            then pointer_gen_loss (hps_batch_size h) target_batch dec_padding_mask final_dists
            else sequence_loss) of
        Inl e \<Rightarrow> Inl e
      | Inr l0 \<Rightarrow>
     (let l = (if hps_use_regularizer h then l0 + penalty else l0) in
      if hps_coverage h
      then (case coverage_loss attn_dists dec_padding_mask of
              Inl e \<Rightarrow> Inl e
            | Inr c \<Rightarrow> Inr \<lparr>m_loss = l, m_coverage_loss = Some c,
                            m_total_loss = Some (l + hps_cov_loss_wt h * c)\<rparr>)
      else Inr \<lparr>m_loss = l, m_coverage_loss = None, m_total_loss = None\<rparr>))))"

text \<open>
  \<open>_add_train_op\<close>:
  \<^verbatim>\<open>loss_to_minimize = self._total_loss if self._hps.coverage else self._loss\<close>
\<close>

definition loss_to_minimize :: "hps \<Rightarrow> model_losses \<Rightarrow> error + real" where
  "loss_to_minimize h m =
     (if hps_coverage h
      then (case m_total_loss m of None \<Rightarrow> Inl AttributeError | Some t \<Rightarrow> Inr t)
      else Inr (m_loss m))"

text \<open>
  The regularization term as the specification words it: the sum of the L2 penalties of
  the regularized weights, scaled by \<open>beta_l2\<close>.
\<close>

definition l2_penalty_spec :: "hps \<Rightarrow> vec list \<Rightarrow> real" where
  "l2_penalty_spec h variables = hps_beta_l2 h * sum_list (map l2_loss variables)"

section \<open>\<open>_add_gcn_layer\<close>\<close>

text \<open>
  A \<open>tf.SparseTensor\<close> of rank 2: the index pairs of the stored entries, their values and
  the dense shape. \<open>adj_in\<close> and \<open>adj_out\<close> are lists, one element per example, of
  dictionaries from a label to the sparse adjacency matrix of that label.
\<close>

record sparse =
  sp_indices :: "(nat \<times> nat) list"
  sp_values :: vec
  sp_shape :: "nat \<times> nat"

type_synonym adjacency = "(nat \<rightharpoonup> sparse) list"

text \<open>
  The trainable variables that \<open>tf.get_variable\<close> fetches in the scope of one layer.
  Those fetched in the scope of a label (\<open>b_gin\<close>, \<open>b_gout\<close>, \<open>b_gloop\<close>) depend on the
  label. A unit axis of a bias is dropped: \<open>b_layer\<close> and the gate biases have shape
  \<open>[1]\<close>, \<open>b_out\<close> has shape \<open>[1, gcn_dim]\<close>. The gate weights keep their shape
  \<open>[in_dim, 1]\<close>. The variable \<open>w_skip\<close> is fetched and never used. \<open>tf.get_variable\<close> is
  read as the lookup of a parameter by its scoped name; the bookkeeping of the variable
  store is left out (under \<open>use_gating\<close> the label scope asks for \<open>'b_gout'\<close> twice, as
  \<open>b_common\<close> and as \<open>b_gout\<close>, and both are the same parameter here).
\<close>

record gcn_vars =
  w_in :: mat
  w_out :: mat
  w_loop :: mat
  b_layer :: real
  b_out :: vec
  w_gin :: mat
  w_gout :: mat
  w_gloop :: mat
  b_gin :: "nat \<Rightarrow> real"
  b_gout :: "nat \<Rightarrow> real"
  b_gloop :: "nat \<Rightarrow> real"
  w_adjust :: mat

definition t3_map :: "(real \<Rightarrow> real) \<Rightarrow> tensor3 \<Rightarrow> tensor3" where
  "t3_map f t = map (map (map f)) t"

definition t3_map2 :: "(real \<Rightarrow> real \<Rightarrow> real) \<Rightarrow> tensor3 \<Rightarrow> tensor3 \<Rightarrow> tensor3" where
  "t3_map2 f s t = map2 (map2 (map2 f)) s t"

text \<open>The product of a row vector with a matrix of \<open>n\<close> columns, and \<open>tf.tensordot\<close>
  of a tensor of rank 3 with such a matrix along \<open>axes=[[2], [0]]\<close>.\<close>

definition vec_mat :: "nat \<Rightarrow> vec \<Rightarrow> mat \<Rightarrow> vec" where
  "vec_mat n x w = foldr (map2 (+)) (map2 (\<lambda>xi row. map ((*) xi) row) x w) (replicate n 0)"

definition tensordot :: "nat \<Rightarrow> tensor3 \<Rightarrow> mat \<Rightarrow> tensor3" where
  "tensordot n t w = map (map (\<lambda>x. vec_mat n x w)) t"

text \<open>
  \<open>tf.sparse_tensor_dense_matmul(a, x)\<close> for a dense \<open>x\<close> with \<open>n\<close> columns: row \<open>r\<close> of the
  product is the sum of \<open>v * x[c]\<close> over the stored entries \<open>(r, c)\<close> with value \<open>v\<close>. The
  inner dimensions have to agree and the indices have to lie inside the dense shape.
\<close>

definition sparse_tensor_dense_matmul :: "nat \<Rightarrow> sparse \<Rightarrow> mat \<Rightarrow> error + mat" where
  "sparse_tensor_dense_matmul n a x =
     (if snd (sp_shape a) \<noteq> length x \<or> length (sp_indices a) \<noteq> length (sp_values a) \<or>
         \<not> list_all (\<lambda>(r, c). r < fst (sp_shape a) \<and> c < snd (sp_shape a)) (sp_indices a)
      then Inl InvalidArgumentError
      else Inr (map (\<lambda>r. foldr (map2 (+))
                           (map (\<lambda>((r', c), v). if r' = r then map ((*) v) (x ! c)
                                                  else replicate n 0)
                              (zip (sp_indices a) (sp_values a)))
                           (replicate n 0))
                  [0..<fst (sp_shape a)]))"

text \<open>
  \<^verbatim>\<open>tf.stack([tf.sparse_tensor_dense_matmul(adj[i][lbl], inp[i]) for i in range(batch_size)])\<close>:
  \<open>adj[i]\<close> raises \<open>IndexError\<close> and \<open>adj[i][lbl]\<close> \<open>KeyError\<close>; \<open>inp[i]\<close> fails when the
  tensor has no example \<open>i\<close>.
\<close>

definition stack_matmul :: "nat \<Rightarrow> adjacency \<Rightarrow> nat \<Rightarrow> nat \<Rightarrow> tensor3 \<Rightarrow> error + tensor3" where
  "stack_matmul n adj lbl batch_size inp =
     collect (map (\<lambda>i. if length adj \<le> i then Inl IndexError
                        else case (adj ! i) lbl of
                               None \<Rightarrow> Inl KeyError
                             | Some a \<Rightarrow> if length inp \<le> i then Inl ValueError
                                        else sparse_tensor_dense_matmul n a (inp ! i))
                [0..<batch_size])"

text \<open>
  \<open>tf.nn.dropout(x, keep_prob)\<close> is \<open>x / keep_prob * floor(keep_prob + u)\<close> for a tensor
  \<open>u\<close> of uniform samples from \<open>[0, 1)\<close>, which the model takes as an input.
\<close>

definition tf_dropout :: "real \<Rightarrow> tensor3 \<Rightarrow> tensor3 \<Rightarrow> error + tensor3" where
  "tf_dropout keep_prob u x =
     (if keep_prob = 0 then Inl NonFinite
      else Inr (t3_map2 (\<lambda>x u. x / keep_prob * of_int \<lfloor>keep_prob + u\<rfloor>) x u))"

definition sigmoid :: "real \<Rightarrow> real" where
  "sigmoid x = 1 / (1 + exp (- x))"

definition relu :: "real \<Rightarrow> real" where
  "relu x = max x 0"

text \<open>The product of a tensor of shape \<open>(b, m, n)\<close> with a gate of shape \<open>(b, m, 1)\<close>,
  which broadcasts along the last axis.\<close>

definition gate_mul :: "tensor3 \<Rightarrow> tensor3 \<Rightarrow> tensor3" where
  "gate_mul t g =
     map2 (map2 (\<lambda>row grow. case grow of [s] \<Rightarrow> map ((*) s) row | _ \<Rightarrow> map2 (*) row grow)) t g"

text \<open>
  The block \<^verbatim>\<open>with tf.name_scope('in_arcs-...')\<close> for the label \<open>lbl\<close>. The gated
  activation \<open>in_t * in_gsig\<close> is computed when \<open>use_gating\<close> holds; the statement
  \<^verbatim>\<open>in_act = in_t\<close> after the conditional then assigns the ungated \<open>in_t\<close>.
\<close>

definition in_arcs ::
  "gcn_vars \<Rightarrow> tensor3 \<Rightarrow> nat \<Rightarrow> nat \<Rightarrow> nat \<Rightarrow> adjacency \<Rightarrow> bool \<Rightarrow> real \<Rightarrow>
   tensor3 \<Rightarrow> tensor3 \<Rightarrow> error + tensor3" where
  "in_arcs p u gcn_dim batch_size lbl adj_in use_gating dropout pre_com_o_in pre_com_o_gin =
     (let inp_in = pre_com_o_in in
      case stack_matmul gcn_dim adj_in lbl batch_size inp_in of
        Inl e \<Rightarrow> Inl e
      | Inr in_t0 \<Rightarrow>
     (case (if dropout \<noteq> 1 then tf_dropout dropout u in_t0 else Inr in_t0) of
        Inl e \<Rightarrow> Inl e
      | Inr in_t \<Rightarrow>
     (case (if use_gating
            then (let inp_gin = t3_map (\<lambda>x. x + b_gin p lbl) pre_com_o_gin in
                  case stack_matmul 1 adj_in lbl batch_size inp_gin of
                    Inl e \<Rightarrow> Inl e
                  | Inr in_gate \<Rightarrow>
                      (let in_gsig = t3_map sigmoid in_gate in Inr (gate_mul in_t in_gsig)))
            else Inr in_t) of
        Inl e \<Rightarrow> Inl e
      | Inr in_act \<Rightarrow> Inr in_t)))"

text \<open>The block \<^verbatim>\<open>with tf.name_scope('out_arcs-...')\<close>, which ends with
  \<^verbatim>\<open>out_act = out_t\<close> in the same way.\<close>

definition out_arcs ::
  "gcn_vars \<Rightarrow> tensor3 \<Rightarrow> nat \<Rightarrow> nat \<Rightarrow> nat \<Rightarrow> adjacency \<Rightarrow> bool \<Rightarrow> real \<Rightarrow>
   tensor3 \<Rightarrow> tensor3 \<Rightarrow> error + tensor3" where
  "out_arcs p u gcn_dim batch_size lbl adj_out use_gating dropout pre_com_o_out pre_com_o_gout =
     (let inp_out = pre_com_o_out in
      case stack_matmul gcn_dim adj_out lbl batch_size inp_out of
        Inl e \<Rightarrow> Inl e
      | Inr out_t0 \<Rightarrow>
     (case (if dropout \<noteq> 1 then tf_dropout dropout u out_t0 else Inr out_t0) of
        Inl e \<Rightarrow> Inl e
      | Inr out_t \<Rightarrow>
     (case (if use_gating
            then (let inp_gout = t3_map (\<lambda>x. x + b_gout p lbl) pre_com_o_gout in
                  case stack_matmul 1 adj_out lbl batch_size inp_gout of
                    Inl e \<Rightarrow> Inl e
                  | Inr out_gate \<Rightarrow>
                      (let out_gsig = t3_map sigmoid out_gate in Inr (gate_mul out_t out_gsig)))
            else Inr out_t) of
        Inl e \<Rightarrow> Inl e
      | Inr out_act \<Rightarrow> Inr out_t)))"

text \<open>
  The block \<^verbatim>\<open>with tf.name_scope('self_loop')\<close>, after the loop over the labels. It reads
  \<open>b_gloop\<close> as the last label left it; with no label at all the name is unbound.
\<close>

definition self_loop ::
  "gcn_vars \<Rightarrow> tensor3 \<Rightarrow> nat \<Rightarrow> bool \<Rightarrow> real \<Rightarrow> tensor3 \<Rightarrow> tensor3 \<Rightarrow> error + tensor3" where
  "self_loop p u max_labels use_gating dropout pre_com_o_loop pre_com_o_gloop =
     (case (if dropout \<noteq> 1 then tf_dropout dropout u pre_com_o_loop else Inr pre_com_o_loop) of
        Inl e \<Rightarrow> Inl e
      | Inr inp_loop \<Rightarrow>
          if use_gating
          then (if max_labels = 0 then Inl NameError
                else (let inp_gloop = t3_map (\<lambda>x. x + b_gloop p (max_labels - 1)) pre_com_o_gloop;
                          loop_gsig = t3_map sigmoid inp_gloop
                      in Inr (gate_mul inp_loop loop_gsig)))
          else Inr inp_loop)"

text \<open>
  The loop \<^verbatim>\<open>for lbl in range(max_labels)\<close> with its accumulator \<open>act_sum\<close>. The samples
  for the two dropouts of label \<open>lbl\<close> are \<open>u (lbl, 0)\<close> and \<open>u (lbl, 1)\<close>.
\<close>

fun label_loop ::
  "gcn_vars \<Rightarrow> (nat \<times> nat \<Rightarrow> tensor3) \<Rightarrow> nat \<Rightarrow> nat \<Rightarrow> adjacency \<Rightarrow> adjacency \<Rightarrow> bool \<Rightarrow> real \<Rightarrow>
   tensor3 \<Rightarrow> tensor3 \<Rightarrow> tensor3 \<Rightarrow> tensor3 \<Rightarrow> nat list \<Rightarrow> tensor3 \<Rightarrow> error + tensor3" where
  "label_loop p u gcn_dim batch_size adj_in adj_out use_gating dropout
     pre_in pre_gin pre_out pre_gout [] act_sum = Inr act_sum"
| "label_loop p u gcn_dim batch_size adj_in adj_out use_gating dropout
     pre_in pre_gin pre_out pre_gout (lbl # lbls) act_sum =
     (case in_arcs p (u (lbl, 0)) gcn_dim batch_size lbl adj_in use_gating dropout pre_in pre_gin of
        Inl e \<Rightarrow> Inl e
      | Inr in_act \<Rightarrow>
     (case out_arcs p (u (lbl, 1)) gcn_dim batch_size lbl adj_out use_gating dropout
             pre_out pre_gout of
        Inl e \<Rightarrow> Inl e
      | Inr out_act \<Rightarrow>
          label_loop p u gcn_dim batch_size adj_in adj_out use_gating dropout
            pre_in pre_gin pre_out pre_gout lbls
            (t3_map2 (+) act_sum (t3_map2 (+) in_act out_act))))"

text \<open>
  \<^verbatim>\<open>act_sum / tf.expand_dims(neighbour_count, -1)\<close>: every row of features is divided by
  the neighbour count of its node.
\<close>

definition normalize :: "tensor3 \<Rightarrow> mat \<Rightarrow> error + tensor3" where
  "normalize act_sum neighbour_count =
     collect (map (\<lambda>(nodes, counts).
                collect (map (\<lambda>(row, k). collect (map (\<lambda>x. tf_div x k) row)) (zip nodes counts)))
              (zip act_sum neighbour_count))"

text \<open>
  One pass through the body of \<^verbatim>\<open>for layer in range(num_layers)\<close>: from the layer's
  input \<open>gcn_in\<close> to its \<open>gcn_out\<close>. The samples for the dropout of the self loop are
  \<open>u (max_labels, 2)\<close>. The source computes the three gate projections under
  \<open>use_gating\<close> only; they are values without effect and are read under \<open>use_gating\<close>
  only, so they are bound here in either case.
\<close>

definition gcn_layer ::
  "gcn_vars \<Rightarrow> (nat \<times> nat \<Rightarrow> tensor3) \<Rightarrow> tensor3 \<Rightarrow> nat \<Rightarrow> nat \<Rightarrow> nat \<Rightarrow> nat \<Rightarrow> nat \<Rightarrow>
   adjacency \<Rightarrow> adjacency \<Rightarrow> mat \<Rightarrow> bool \<Rightarrow> bool \<Rightarrow> bool \<Rightarrow> real \<Rightarrow> error + tensor3" where
  "gcn_layer p u gcn_in in_dim gcn_dim batch_size max_nodes max_labels adj_in adj_out
     neighbour_count use_gating use_skip use_normalization dropout =
     (let act_sum = replicate batch_size (replicate max_nodes (replicate gcn_dim 0));
          pre_com_o_in = tensordot gcn_dim gcn_in (w_in p);
          pre_com_o_out = tensordot gcn_dim gcn_in (w_out p);
          pre_com_o_loop = tensordot gcn_dim gcn_in (w_loop p);
          pre_com_o_gin = tensordot 1 gcn_in (w_gin p);
          pre_com_o_gout = tensordot 1 gcn_in (w_gout p);
          pre_com_o_gloop = tensordot 1 gcn_in (w_gloop p)
      in case label_loop p u gcn_dim batch_size adj_in adj_out use_gating dropout
                pre_com_o_in pre_com_o_gin pre_com_o_out pre_com_o_gout [0..<max_labels] act_sum of
           Inl e \<Rightarrow> Inl e
         | Inr act_sum1 \<Rightarrow>
        (case self_loop p (u (max_labels, 2)) max_labels use_gating dropout
                pre_com_o_loop pre_com_o_gloop of
           Inl e \<Rightarrow> Inl e
         | Inr loop_act \<Rightarrow>
        (let act_sum2 = t3_map2 (+) act_sum1 loop_act;
             act_sum3 = map (map (\<lambda>row. map2 (+) row (b_out p))) act_sum2
         in case (if use_normalization then normalize act_sum3 neighbour_count
                  else Inr act_sum3) of
              Inl e \<Rightarrow> Inl e
            | Inr act_sum4 \<Rightarrow>
                (let gcn_out = t3_map relu act_sum4
                 in if use_skip
                    then (let gcn_in1 = (if in_dim \<noteq> gcn_dim
                                         then tensordot gcn_dim gcn_in (w_adjust p) else gcn_in)
                          in Inr (t3_map2 (+) (t3_map ((*) (b_layer p)) gcn_in1)
                                    (t3_map ((*) (1 - b_layer p)) gcn_out)))
                    else Inr gcn_out))))"

text \<open>
  The loop over the layers, with the variables that it updates: the list \<open>out\<close>, \<open>in_dim\<close>
  and \<open>gcn_out\<close>, which is unbound until a layer has run. \<open>out\<close> starts as \<open>[gcn_in]\<close>
  and only grows, so \<open>out[-1]\<close> always exists.
\<close>

fun layer_loop ::
  "(nat \<Rightarrow> tensor3 \<Rightarrow> nat \<Rightarrow> error + tensor3) \<Rightarrow> nat \<Rightarrow> nat list \<Rightarrow>
   tensor3 list \<times> nat \<times> tensor3 option \<Rightarrow> error + tensor3" where
  "layer_loop body gcn_dim [] (out, in_dim, gcn_out) =
     (case gcn_out of None \<Rightarrow> Inl NameError | Some t \<Rightarrow> Inr t)"
| "layer_loop body gcn_dim (layer # layers) (out, in_dim, gcn_out) =
     (let gcn_in = last out;
          in_dim1 = (if length out > 1 then gcn_dim else in_dim)
      in case body layer gcn_in in_dim1 of
           Inl e \<Rightarrow> Inl e
         | Inr t \<Rightarrow> layer_loop body gcn_dim layers (out @ [t], in_dim1, Some t))"

text \<open>
  \<open>_add_gcn_layer\<close>. \<open>vars name layer\<close> are the variables of the scope
  \<^verbatim>\<open>'%s-%d' % (name, layer)\<close>, \<open>u layer\<close> the dropout samples of a layer. The keyword
  parameter \<open>use_label_information\<close> is the last argument.
\<close>

definition add_gcn_layer ::
  "hps \<Rightarrow> (string \<Rightarrow> nat \<Rightarrow> gcn_vars) \<Rightarrow> (nat \<Rightarrow> nat \<times> nat \<Rightarrow> tensor3) \<Rightarrow>
   tensor3 \<Rightarrow> nat \<Rightarrow> nat \<Rightarrow> nat \<Rightarrow> nat \<Rightarrow> nat \<Rightarrow> adjacency \<Rightarrow> adjacency \<Rightarrow> mat \<Rightarrow>
   nat \<Rightarrow> bool \<Rightarrow> bool \<Rightarrow> bool \<Rightarrow> real \<Rightarrow> string \<Rightarrow> bool \<Rightarrow> error + tensor3" where
  "add_gcn_layer h vars u gcn_in in_dim gcn_dim batch_size max_nodes max_labels adj_in adj_out
     neighbour_count num_layers use_gating use_skip use_normalization dropout name
     use_label_information =
     (let max_labels1 = (if \<not> hps_use_label_information h then 1 else max_labels)
      in layer_loop
           (\<lambda>layer gcn_in in_dim.
              gcn_layer (vars name layer) (u layer) gcn_in in_dim gcn_dim batch_size max_nodes
                max_labels1 adj_in adj_out neighbour_count use_gating use_skip
                use_normalization dropout)
           gcn_dim [0..<num_layers] ([gcn_in], in_dim, None))"







section \<open>Facts about the primitives\<close>

lemma collect_map_Inr:
  "(\<And>x. x \<in> set xs \<Longrightarrow> f x = Inr (g x)) \<Longrightarrow> collect (map f xs) = Inr (map g xs)"
  by (induction xs) simp_all

lemma collect_all_Inr: "collect (map Inr xs) = Inr xs"
  by (induction xs) simp_all

lemma collect_NonFinite:
  assumes "Inl NonFinite \<in> set xs"
    and "\<And>x. x \<in> set xs \<Longrightarrow> x = Inl NonFinite \<or> (\<exists>v. x = Inr v)"
  shows "collect xs = Inl NonFinite"
  using assms
proof (induction xs)
  case Nil
  then show ?case by simp
next
  case (Cons x xs)
  show ?case
  proof (cases x)
    case (Inl e)
    with Cons.prems(2) [of x] show ?thesis by auto
  next
    case (Inr v)
    with Cons.prems(1) have "Inl NonFinite \<in> set xs" by auto
    with Cons.IH Cons.prems(2) have "collect xs = Inl NonFinite" by auto
    with Inr show ?thesis by simp
  qed
qed

lemma column_in_range:
  "(\<And>row. row \<in> set t \<Longrightarrow> j < length row) \<Longrightarrow> column t j = Inr (map (\<lambda>row. row ! j) t)"
  by (simp add: column_def list_all_iff)

lemma length_foldl_add:
  "(\<And>w. w \<in> set vs \<Longrightarrow> length w = length v) \<Longrightarrow> length (foldl (map2 (+)) v vs) = length (v::vec)"
  by (induction vs arbitrary: v) simp_all

lemma masked_steps_collect:
  assumes "\<And>row. row \<in> set padding_mask \<Longrightarrow> length values \<le> length row"
  shows "collect (map (mask_step padding_mask) (enumerate 0 values)) =
         Inr (masked_steps values padding_mask)"
  unfolding masked_steps_def
proof (rule collect_map_Inr)
  fix x assume x: "x \<in> set (enumerate 0 values)"
  obtain t v where tv: "x = (t, v)" by (cases x)
  with x have "t < length values" by (simp add: in_set_enumerate_eq)
  with assms have "\<And>row. row \<in> set padding_mask \<Longrightarrow> t < length row" by fastforce
  then have "column padding_mask t = Inr (map (\<lambda>row. row ! t) padding_mask)"
    by (rule column_in_range)
  with tv show "mask_step padding_mask x =
                Inr (case x of (dec_step, v) \<Rightarrow>
                  map2 (*) v (map (\<lambda>row. row ! dec_step) padding_mask))"
    by (simp add: mask_step_def)
qed

lemma length_masked_steps:
  assumes "\<And>v. v \<in> set values \<Longrightarrow> length v = length padding_mask"
    and "w \<in> set (masked_steps values padding_mask)"
  shows "length w = length padding_mask"
proof -
  from assms(2) obtain t v where "(t, v) \<in> set (enumerate 0 values)"
    and w: "w = map2 (*) v (map (\<lambda>row. row ! t) padding_mask)"
    unfolding masked_steps_def by auto
  then have "v \<in> set values" by (auto simp: in_set_enumerate_eq)
  with assms(1) w show ?thesis by simp
qed

lemma length_step_sums:
  "(\<And>w. w \<in> set vs \<Longrightarrow> length w = n) \<Longrightarrow> length (step_sums vs n) = n"
  by (cases vs) (simp_all add: step_sums_def length_foldl_add)

lemma values_per_ex_step_sums:
  "values_per_ex vs dec_lens = map2 tf_div (step_sums vs (length dec_lens)) dec_lens"
  by (cases vs) (simp_all add: values_per_ex_def step_sums_def map2_map_map [of _ "\<lambda>_. 0" _ "\<lambda>d. d", simplified] zip_replicate1 map_replicate_const [symmetric] del: replicate.simps)

lemma collect_tf_div_Inr:
  assumes "\<And>d. d \<in> set ds \<Longrightarrow> d \<noteq> 0"
  shows "collect (map2 tf_div xs ds) = Inr (map2 (/) xs ds)"
  using assms
  by (induction xs ds rule: list_induct2') (simp_all add: tf_div_def)

lemma map2_tf_div_cases:
  "x \<in> set (map2 tf_div xs ds) \<Longrightarrow> x = Inl NonFinite \<or> (\<exists>v. x = Inr v)"
  by (auto simp: tf_div_def set_zip split: if_splits)

lemma map2_tf_div_zero:
  assumes "length xs = length ds" and "0 \<in> set ds"
  shows "Inl NonFinite \<in> set (map2 tf_div xs ds)"
proof -
  from assms(2) obtain i where i: "i < length ds" "ds ! i = 0"
    by (auto simp: in_set_conv_nth)
  with assms(1) have "map2 tf_div xs ds ! i = Inl NonFinite"
    by (simp add: tf_div_def)
  moreover from i assms(1) have "i < length (map2 tf_div xs ds)" by simp
  ultimately show ?thesis by (metis nth_mem)
qed

section \<open>What \<open>_mask_and_avg\<close> returns\<close>

lemma mask_and_avg_eq:
  assumes ne: "padding_mask \<noteq> []"
    and len: "\<And>v. v \<in> set values \<Longrightarrow> length v = length padding_mask"
    and cols: "\<And>row. row \<in> set padding_mask \<Longrightarrow> length values \<le> length row"
  shows "mask_and_avg values padding_mask =
     (if \<exists>row\<in>set padding_mask. sum_list row = 0 then Inl NonFinite
      else Inr (sum_list (per_example_avg values padding_mask) / real (length padding_mask)))"
proof -
  let ?D = "map sum_list padding_mask"
  let ?S = "step_sums (masked_steps values padding_mask) (length ?D)"
  have lenS: "length ?S = length ?D"
    using length_masked_steps [OF len] by (simp add: length_step_sums)
  have unfold: "mask_and_avg values padding_mask =
      (case collect (map2 tf_div ?S ?D) of Inl e \<Rightarrow> Inl e | Inr per_ex \<Rightarrow> reduce_mean per_ex)"
    by (simp add: mask_and_avg_def masked_steps_collect [OF cols] values_per_ex_step_sums)
  show ?thesis
  proof (cases "\<exists>row\<in>set padding_mask. sum_list row = 0")
    case True
    then have "0 \<in> set ?D" by force
    with lenS have "Inl NonFinite \<in> set (map2 tf_div ?S ?D)" by (rule map2_tf_div_zero)
    then have "collect (map2 tf_div ?S ?D) = Inl NonFinite"
      by (rule collect_NonFinite) (rule map2_tf_div_cases)
    with True unfold show ?thesis by simp
  next
    case False
    then have "\<And>d. d \<in> set ?D \<Longrightarrow> d \<noteq> 0" by auto
    then have "collect (map2 tf_div ?S ?D) = Inr (map2 (/) ?S ?D)"
      by (rule collect_tf_div_Inr)
    moreover have "map2 (/) ?S ?D \<noteq> []" using ne lenS by (cases ?S; cases ?D) simp_all
    moreover have "length (map2 (/) ?S ?D) = length padding_mask" using lenS by simp
    ultimately show ?thesis using False unfold
      by (simp add: reduce_mean_def per_example_avg_def)
  qed
qed

text \<open>
  Claim C9. \<open>_mask_and_avg\<close> divides each example's summed masked values by the sum of
  that example's padding-mask row, with no guard. On a well-shaped batch (at least one
  example, one value per example at every step, a mask column for every step) it
  returns a number when every mask row has a strictly positive sum, and the loss is no
  number (\<open>NonFinite\<close>) as soon as one mask row sums to zero, as an all-zero row does.
\<close>

theorem mask_and_avg_needs_positive_lengths:
  assumes "padding_mask \<noteq> []"
    and "\<And>v. v \<in> set values \<Longrightarrow> length v = length padding_mask"
    and "\<And>row. row \<in> set padding_mask \<Longrightarrow> length values \<le> length row"
  shows "((\<forall>row\<in>set padding_mask. 0 < sum_list row) \<longrightarrow>
            (\<exists>r. mask_and_avg values padding_mask = Inr r)) \<and>
         ((\<exists>row\<in>set padding_mask. sum_list row = 0) \<longrightarrow>
            mask_and_avg values padding_mask = Inl NonFinite)"
proof -
  have "\<forall>row\<in>set padding_mask. 0 < sum_list row \<Longrightarrow>
        \<not> (\<exists>row\<in>set padding_mask. sum_list row = 0)"
    by fastforce
  then show ?thesis
    using mask_and_avg_eq [OF assms] by simp
qed

theorem mask_and_avg_needs_positive_lengths_witness:
  "(\<exists>r. mask_and_avg [[2, 4], [6, 8]] [[1, 1], [1, 0]] = Inr r) \<and>
   mask_and_avg [[2, 4], [6, 8]] [[1, 1], [0, 0]] = Inl NonFinite"
proof -
  have ne: "[[1, 1], [1, 0::real]] \<noteq> []" "[[1, 1], [0, 0::real]] \<noteq> []" by simp_all
  have len: "\<And>v. v \<in> set [[2, 4], [6, 8::real]] \<Longrightarrow> length v = length [[1, 1], [1, 0::real]]"
    "\<And>v. v \<in> set [[2, 4], [6, 8::real]] \<Longrightarrow> length v = length [[1, 1], [0, 0::real]]"
    by auto
  have cols: "\<And>row. row \<in> set [[1, 1], [1, 0::real]] \<Longrightarrow> length [[2, 4], [6, 8::real]] \<le> length row"
    "\<And>row. row \<in> set [[1, 1], [0, 0::real]] \<Longrightarrow> length [[2, 4], [6, 8::real]] \<le> length row"
    by auto
  show ?thesis
    using mask_and_avg_needs_positive_lengths [OF ne(1) len(1) cols(1)]
      mask_and_avg_needs_positive_lengths [OF ne(2) len(2) cols(2)]
    by simp
qed

section \<open>\<open>_mask_and_avg\<close> is the masked average\<close>

lemma foldl_add_nth:
  "b < length v \<Longrightarrow> (\<And>w. w \<in> set vs \<Longrightarrow> length w = length v) \<Longrightarrow>
   foldl (map2 (+)) v vs ! b = (v ! b :: real) + sum_list (map (\<lambda>w. w ! b) vs)"
proof (induction vs arbitrary: v)
  case Nil
  then show ?case by simp
next
  case (Cons w vs)
  have "foldl (map2 (+)) (map2 (+) v w) vs ! b = map2 (+) v w ! b + sum_list (map (\<lambda>w. w ! b) vs)"
    using Cons.prems by (intro Cons.IH) simp_all
  with Cons.prems show ?case by simp
qed

lemma masked_steps_upt:
  "masked_steps values padding_mask =
     map (\<lambda>t. map2 (*) (values ! t) (map (\<lambda>row. row ! t) padding_mask)) [0..<length values]"
  by (rule nth_equalityI) (simp_all add: masked_steps_def nth_enumerate_eq)

lemma step_sums_masked_nth:
  assumes len: "\<And>v. v \<in> set values \<Longrightarrow> length v = length padding_mask"
    and b: "b < length padding_mask"
  shows "step_sums (masked_steps values padding_mask) (length padding_mask) ! b =
         sum_list (map (\<lambda>t. values ! t ! b * padding_mask ! b ! t) [0..<length values])"
proof (cases "values")
  case Nil
  with b show ?thesis by (simp add: step_sums_def masked_steps_def)
next
  case (Cons v vs)
  let ?ms = "masked_steps values padding_mask"
  have lens: "\<And>w. w \<in> set ?ms \<Longrightarrow> length w = length padding_mask"
    using length_masked_steps [OF len] by blast
  have nth: "\<And>t. t < length values \<Longrightarrow> ?ms ! t ! b = values ! t ! b * padding_mask ! b ! t"
    using b len by (simp add: masked_steps_upt)
  have all: "sum_list (map (\<lambda>w. w ! b) ?ms) =
             sum_list (map (\<lambda>t. values ! t ! b * padding_mask ! b ! t) [0..<length values])"
  proof -
    have "map (\<lambda>w. w ! b) ?ms = map (\<lambda>t. ?ms ! t ! b) [0..<length ?ms]"
      by (rule nth_equalityI) simp_all
    also have "\<dots> = map (\<lambda>t. values ! t ! b * padding_mask ! b ! t) [0..<length values]"
      using nth by (simp add: masked_steps_upt)
    finally show ?thesis by simp
  qed
  obtain m ms where ms: "?ms = m # ms"
    using Cons by (cases ?ms) (simp_all add: masked_steps_def enumerate_simps)
  then have "m \<in> set ?ms" "\<And>w. w \<in> set ms \<Longrightarrow> w \<in> set ?ms" by simp_all
  with lens have lm: "length m = length padding_mask" "\<And>w. w \<in> set ms \<Longrightarrow> length w = length m"
    by simp_all
  have "step_sums ?ms (length padding_mask) ! b = m ! b + sum_list (map (\<lambda>w. w ! b) ms)"
    using ms lm b by (simp add: step_sums_def foldl_add_nth)
  also have "\<dots> = sum_list (map (\<lambda>w. w ! b) ?ms)" using ms by simp
  finally show ?thesis using all by simp
qed

lemma per_example_avg_eq:
  assumes len: "\<And>v. v \<in> set values \<Longrightarrow> length v = length padding_mask"
  shows "per_example_avg values padding_mask =
         map (\<lambda>b. sum_list (map (\<lambda>t. values ! t ! b * padding_mask ! b ! t) [0..<length values])
                  / sum_list (padding_mask ! b)) [0..<length padding_mask]"
proof (rule nth_equalityI)
  have "length (step_sums (masked_steps values padding_mask) (length padding_mask)) = length padding_mask"
    using length_masked_steps [OF len] by (simp add: length_step_sums)
  then show l: "length (per_example_avg values padding_mask) = length (map (\<lambda>b. sum_list (map (\<lambda>t. values ! t ! b * padding_mask ! b ! t) [0..<length values])
                  / sum_list (padding_mask ! b)) [0..<length padding_mask])"
    by (simp add: per_example_avg_def)
  fix b assume "b < length (per_example_avg values padding_mask)"
  with l have b: "b < length padding_mask" by simp
  then show "per_example_avg values padding_mask ! b = map (\<lambda>b. sum_list (map (\<lambda>t. values ! t ! b * padding_mask ! b ! t) [0..<length values])
                  / sum_list (padding_mask ! b)) [0..<length padding_mask] ! b"
    using \<open>length (step_sums (masked_steps values padding_mask) (length padding_mask)) = length padding_mask\<close>
    by (simp add: per_example_avg_def step_sums_masked_nth [OF len b])
qed

lemma mask_and_avg_masked_average:
  assumes "padding_mask \<noteq> []"
    and len: "\<And>v. v \<in> set values \<Longrightarrow> length v = length padding_mask"
    and "\<And>row. row \<in> set padding_mask \<Longrightarrow> length values \<le> length row"
    and "\<And>row. row \<in> set padding_mask \<Longrightarrow> sum_list row \<noteq> 0"
  shows "mask_and_avg values padding_mask =
         Inr (masked_average (\<lambda>t b. values ! t ! b) (length values) padding_mask)"
proof -
  have "\<not> (\<exists>row\<in>set padding_mask. sum_list row = 0)" using assms(4) by blast
  then show ?thesis
    using mask_and_avg_eq [OF assms(1-3)]
    by (simp add: per_example_avg_eq [OF len] masked_average_def)
qed

lemma masked_average_cong:
  assumes "\<And>t b. t < n_steps \<Longrightarrow> b < length padding_mask \<Longrightarrow> f t b = g t b"
  shows "masked_average f n_steps padding_mask = masked_average g n_steps padding_mask"
proof -
  have "map (\<lambda>b. sum_list (map (\<lambda>t. f t b * padding_mask ! b ! t) [0..<n_steps])
                          / sum_list (padding_mask ! b)) [0..<length padding_mask] =
        map (\<lambda>b. sum_list (map (\<lambda>t. g t b * padding_mask ! b ! t) [0..<n_steps])
                          / sum_list (padding_mask ! b)) [0..<length padding_mask]"
  proof (rule map_cong [OF refl])
    fix b assume "b \<in> set [0..<length padding_mask]"
    then have b: "b < length padding_mask" by simp
    have eq: "map (\<lambda>t. f t b * padding_mask ! b ! t) [0..<n_steps] =
          map (\<lambda>t. g t b * padding_mask ! b ! t) [0..<n_steps]"
      using assms b by simp
    show "sum_list (map (\<lambda>t. f t b * padding_mask ! b ! t) [0..<n_steps]) / sum_list (padding_mask ! b) =
          sum_list (map (\<lambda>t. g t b * padding_mask ! b ! t) [0..<n_steps]) / sum_list (padding_mask ! b)"
      by (simp only: eq)
  qed
  then show ?thesis by (simp only: masked_average_def)
qed

section \<open>The coverage loop\<close>

lemma shaped_nth: "shaped m n t \<Longrightarrow> b < m \<Longrightarrow> length (t ! b) = n"
  by (simp add: shaped_def list_all_length)

lemma shaped_length: "shaped m n t \<Longrightarrow> length t = m"
  by (simp add: shaped_def)

lemma map2_upt:
  "length xs = n \<Longrightarrow> length ys = n \<Longrightarrow> map2 f xs ys = map (\<lambda>i. f (xs ! i) (ys ! i)) [0..<n]"
  by (rule nth_equalityI) simp_all

lemma sum_list_upt_Suc_shift:
  "sum_list (map f [0..<Suc t]) = (f 0 :: real) + sum_list (map (\<lambda>s. f (Suc s)) [0..<t])"
proof -
  have "[0..<Suc t] = 0 # map Suc [0..<t]"
    by (simp add: upt_conv_Cons map_Suc_upt del: upt_Suc)
  then show ?thesis by (simp add: comp_def del: upt_Suc)
qed

lemma shaped_add:
  "shaped m n c \<Longrightarrow> shaped m n a \<Longrightarrow> shaped m n (map2 (map2 (+)) c a)"
  by (auto simp: shaped_def list_all_length)

lemma length_covlosses_loop: "length (covlosses_loop c as) = length as"
  by (induction as arbitrary: c) simp_all

lemma length_covlosses_loop_nth:
  assumes "shaped m n c" and "\<And>a. a \<in> set as \<Longrightarrow> shaped m n a" and "t < length as"
  shows "length (covlosses_loop c as ! t) = m"
  using assms
proof (induction as arbitrary: c t)
  case Nil
  then show ?case by simp
next
  case (Cons a as)
  have a: "shaped m n a" using Cons.prems(2) by simp
  show ?case
  proof (cases t)
    case 0
    then show ?thesis using a Cons.prems(1) by (simp add: shaped_length)
  next
    case (Suc t')
    have "length (covlosses_loop (map2 (map2 (+)) c a) as ! t') = m"
      using shaped_add [OF Cons.prems(1) a] Cons.prems(2,3) Suc by (intro Cons.IH) simp_all
    with Suc show ?thesis by simp
  qed
qed

lemma covlosses_loop_nth:
  assumes "shaped m n c" and "\<And>a. a \<in> set as \<Longrightarrow> shaped m n a" and "t < length as" and "b < m"
  shows "covlosses_loop c as ! t ! b =
         sum_list (map (\<lambda>i. min (as ! t ! b ! i)
                              (c ! b ! i + sum_list (map (\<lambda>s. as ! s ! b ! i) [0..<t])))
                    [0..<n])"
  using assms
proof (induction as arbitrary: c t)
  case Nil
  then show ?case by simp
next
  case (Cons a as)
  have a: "shaped m n a" using Cons.prems(2) by simp
  have la: "length (a ! b) = n" "length (c ! b) = n" "length a = m" "length c = m"
    using a Cons.prems(1,4) by (simp_all add: shaped_nth shaped_length)
  show ?case
  proof (cases t)
    case 0
    have "covlosses_loop c (a # as) ! 0 ! b = sum_list (map2 min (a ! b) (c ! b))"
      using la Cons.prems(4) by simp
    also have "\<dots> = sum_list (map (\<lambda>i. min (a ! b ! i) (c ! b ! i)) [0..<n])"
      using la by (simp add: map2_upt [of _ n])
    finally show ?thesis using 0 by simp
  next
    case (Suc t')
    let ?c' = "map2 (map2 (+)) c a"
    have c': "shaped m n ?c'" using Cons.prems(1) a by (rule shaped_add)
    have t': "t' < length as" using Cons.prems(3) Suc by simp
    have IH: "covlosses_loop ?c' as ! t' ! b =
         sum_list (map (\<lambda>i. min (as ! t' ! b ! i)
                              (?c' ! b ! i + sum_list (map (\<lambda>s. as ! s ! b ! i) [0..<t'])))
                    [0..<n])"
      using c' Cons.prems(2) t' Cons.prems(4) by (intro Cons.IH) simp_all
    have "\<And>i. i < n \<Longrightarrow> ?c' ! b ! i = c ! b ! i + a ! b ! i"
      using la Cons.prems(4) by simp
    then have "map (\<lambda>i. min (as ! t' ! b ! i)
                  (?c' ! b ! i + sum_list (map (\<lambda>s. as ! s ! b ! i) [0..<t']))) [0..<n] =
          map (\<lambda>i. min ((a # as) ! Suc t' ! b ! i)
                  (c ! b ! i + sum_list (map (\<lambda>s. (a # as) ! s ! b ! i) [0..<Suc t']))) [0..<n]"
      by (simp add: sum_list_upt_Suc_shift add.assoc del: upt_Suc)
    with IH Suc show ?thesis by simp
  qed
qed

lemma covlosses_loop_spec:
  assumes ne: "attn_dists \<noteq> []" and sh: "\<And>a. a \<in> set attn_dists \<Longrightarrow> shaped m n a"
  shows "covlosses_loop (map (map (\<lambda>_. 0)) (hd attn_dists)) attn_dists =
         map (\<lambda>t. map (\<lambda>b. covloss_step attn_dists t b) [0..<m]) [0..<length attn_dists]"
proof (rule nth_equalityI)
  let ?z = "map (map (\<lambda>_. 0::real)) (hd attn_dists)"
  show "length (covlosses_loop ?z attn_dists) =
        length (map (\<lambda>t. map (\<lambda>b. covloss_step attn_dists t b) [0..<m]) [0..<length attn_dists])"
    by (simp add: length_covlosses_loop)
  have hd: "shaped m n (hd attn_dists)" using ne sh by simp
  then have z: "shaped m n ?z" by (simp add: shaped_def list_all_length)
  fix t assume "t < length (covlosses_loop ?z attn_dists)"
  then have t: "t < length attn_dists" by (simp add: length_covlosses_loop)
  then have at: "shaped m n (attn_dists ! t)" using sh by simp
  have lt: "length (covlosses_loop ?z attn_dists ! t) = m"
    using z sh t by (rule length_covlosses_loop_nth)
  show "covlosses_loop ?z attn_dists ! t =
        map (\<lambda>t. map (\<lambda>b. covloss_step attn_dists t b) [0..<m]) [0..<length attn_dists] ! t"
  proof (rule nth_equalityI)
    show "length (covlosses_loop ?z attn_dists ! t) =
          length (map (\<lambda>t. map (\<lambda>b. covloss_step attn_dists t b) [0..<m]) [0..<length attn_dists] ! t)"
      using lt t by simp
    fix b assume "b < length (covlosses_loop ?z attn_dists ! t)"
    with lt have b: "b < m" by simp
    have zb: "\<And>i. i < n \<Longrightarrow> ?z ! b ! i = 0"
      using hd b by (simp add: shaped_nth shaped_length)
    have "covlosses_loop ?z attn_dists ! t ! b =
         sum_list (map (\<lambda>i. min (attn_dists ! t ! b ! i)
                              (?z ! b ! i + sum_list (map (\<lambda>s. attn_dists ! s ! b ! i) [0..<t])))
                    [0..<n])"
      using z sh t b by (rule covlosses_loop_nth)
    also have "map (\<lambda>i. min (attn_dists ! t ! b ! i)
                              (?z ! b ! i + sum_list (map (\<lambda>s. attn_dists ! s ! b ! i) [0..<t])))
                    [0..<n] =
               map (\<lambda>i. min (attn_dists ! t ! b ! i)
                              (sum_list (map (\<lambda>s. attn_dists ! s ! b ! i) [0..<t])))
                    [0..<n]"
      using zb by simp
    also have "sum_list \<dots> = covloss_step attn_dists t b"
      using shaped_nth [OF at b] by (simp add: covloss_step_def)
    finally show "covlosses_loop ?z attn_dists ! t ! b =
          map (\<lambda>t. map (\<lambda>b. covloss_step attn_dists t b) [0..<m]) [0..<length attn_dists] ! t ! b"
      using t b by simp
  qed
qed



lemma coverage_loss_masked_average:
  assumes ne: "attn_dists \<noteq> []"
    and sh: "\<And>a. a \<in> set attn_dists \<Longrightarrow> shaped (length padding_mask) n a"
    and mne: "padding_mask \<noteq> []"
    and cols: "\<And>row. row \<in> set padding_mask \<Longrightarrow> length attn_dists \<le> length row"
    and pos: "\<And>row. row \<in> set padding_mask \<Longrightarrow> sum_list row \<noteq> 0"
  shows "coverage_loss attn_dists padding_mask =
           mask_and_avg (map (\<lambda>t. map (\<lambda>b. covloss_step attn_dists t b) [0..<length padding_mask])
                          [0..<length attn_dists]) padding_mask \<and>
         coverage_loss attn_dists padding_mask =
           Inr (masked_average (covloss_step attn_dists) (length attn_dists) padding_mask)"
proof -
  let ?vs = "map (\<lambda>t. map (\<lambda>b. covloss_step attn_dists t b) [0..<length padding_mask])
               [0..<length attn_dists]"
  have 1: "coverage_loss attn_dists padding_mask = mask_and_avg ?vs padding_mask"
    using ne covlosses_loop_spec [OF ne sh]
    by (cases attn_dists) (simp_all add: coverage_loss_def)
  have len: "\<And>v. v \<in> set ?vs \<Longrightarrow> length v = length padding_mask" by auto
  have cols': "\<And>row. row \<in> set padding_mask \<Longrightarrow> length ?vs \<le> length row"
    using cols by simp
  have "mask_and_avg ?vs padding_mask =
        Inr (masked_average (\<lambda>t b. ?vs ! t ! b) (length ?vs) padding_mask)"
    using mne len cols' pos by (rule mask_and_avg_masked_average)
  also have "masked_average (\<lambda>t b. ?vs ! t ! b) (length ?vs) padding_mask =
             masked_average (covloss_step attn_dists) (length attn_dists) padding_mask"
  proof -
    have l: "length ?vs = length attn_dists" by simp
    show ?thesis unfolding l by (rule masked_average_cong) simp
  qed
  finally show ?thesis using 1 by simp
qed

text \<open>
  Claim C4. The coverage loss starts from a zero accumulator; the term of a step is the
  sum over the encoder positions of the minimum of that step's attention and the
  accumulator, which then grows by the step's attention, so that it holds the sum of the
  earlier steps' attention. The terms go through \<open>_mask_and_avg\<close>, the function that
  averages the base loss: masked by the padding mask, divided per example by its
  mask-row sum, averaged over the batch.
\<close>

theorem coverage_loss_min_accumulate:
  assumes ne: "attn_dists \<noteq> []"
    and sh: "\<And>a. a \<in> set attn_dists \<Longrightarrow> shaped (length padding_mask) n a"
    and mne: "padding_mask \<noteq> []"
    and cols: "\<And>row. row \<in> set padding_mask \<Longrightarrow> length attn_dists \<le> length row"
    and pos: "\<And>row. row \<in> set padding_mask \<Longrightarrow> sum_list row \<noteq> 0"
  shows "coverage_loss attn_dists padding_mask =
           mask_and_avg (map (\<lambda>t. map (\<lambda>b. covloss_step attn_dists t b) [0..<length padding_mask])
                          [0..<length attn_dists]) padding_mask \<and>
         coverage_loss attn_dists padding_mask =
           Inr (masked_average (covloss_step attn_dists) (length attn_dists) padding_mask)"
  using assms by (rule coverage_loss_masked_average)

theorem coverage_loss_min_accumulate_witness:
  "coverage_loss [[[1/2, 1/2], [1, 0]], [[1/4, 3/4], [0, 1]], [[1, 0], [1/2, 1/2]]]
     [[1, 1, 1], [1, 1, 0]] = Inr (1/4)"
proof -
  let ?A = "[[[1/2, 1/2], [1, 0]], [[1/4, 3/4], [0, 1]], [[1, 0], [1/2, 1/2::real]]]"
  let ?M = "[[1, 1, 1], [1, 1, 0::real]]"
  have h1: "?A \<noteq> []" by simp
  have h2: "\<And>a. a \<in> set ?A \<Longrightarrow> shaped (length ?M) 2 a" by (auto simp: shaped_def)
  have h3: "?M \<noteq> []" by simp
  have h4: "\<And>row. row \<in> set ?M \<Longrightarrow> length ?A \<le> length row" by auto
  have h5: "\<And>row. row \<in> set ?M \<Longrightarrow> sum_list row \<noteq> 0" by auto
  have v: "masked_average (covloss_step ?A) (length ?A) ?M = 1/4"
    by (simp add: masked_average_def covloss_step_def)
  show ?thesis
    by (simp only: coverage_loss_min_accumulate [OF h1 h2 h3 h4 h5, THEN conjunct2] v)
qed

section \<open>Repeated attention\<close>










section \<open>\<open>tf.scatter_nd\<close> accumulates\<close>

lemma length_scatter_update: "length (scatter_update x out) = length out"
proof -
  obtain r c u where "x = ((r, c), u)" by (metis surj_pair)
  then show ?thesis by simp
qed

lemma length_scatter_update_nth: "length (scatter_update x out ! r) = length (out ! r)"
proof -
  obtain r' c u where "x = ((r', c), u)" by (metis surj_pair)
  then show ?thesis by (simp add: nth_list_update)
qed

lemma scatter_update_nth:
  assumes "r < length out" and "c < length (out ! r)"
  shows "scatter_update x out ! r ! c = out ! r ! c + (if fst x = (r, c) then snd x else 0)"
proof -
  obtain r' c' u where "x = ((r', c'), u)" by (metis surj_pair)
  then show ?thesis using assms by (auto simp: nth_list_update)
qed

lemma fold_scatter_update_shape:
  "length (fold scatter_update xs out) = length out \<and>
   length (fold scatter_update xs out ! r) = length (out ! r)"
  by (induction xs arbitrary: out) (simp_all add: length_scatter_update length_scatter_update_nth)

lemma fold_scatter_update_nth:
  assumes "r < length out" and "c < length (out ! r)"
  shows "fold scatter_update xs out ! r ! c =
         out ! r ! c + sum_list (map (\<lambda>x. if fst x = (r, c) then snd x else 0) xs)"
  using assms
proof (induction xs arbitrary: out)
  case Nil
  then show ?case by simp
next
  case (Cons x xs)
  have "fold scatter_update xs (scatter_update x out) ! r ! c =
        scatter_update x out ! r ! c + sum_list (map (\<lambda>x. if fst x = (r, c) then snd x else 0) xs)"
    using Cons.prems by (intro Cons.IH) (simp_all add: length_scatter_update length_scatter_update_nth)
  then show ?case using Cons.prems by (simp add: scatter_update_nth)
qed


lemma sum_list_delta_upt_if:
  "sum_list (map (\<lambda>b. if b = r then (x::real) else 0) [0..<B]) = (if r < B then x else 0)"
  by (induction B) auto

lemma sum_list_delta_upt:
  "r < B \<Longrightarrow> sum_list (map (\<lambda>b. if b = r then (x::real) else 0) [0..<B]) = x"
  by (simp add: sum_list_delta_upt_if)

lemma sum_list_concat_map:
  "sum_list (map f (concat xss)) = sum_list (map (\<lambda>xs. sum_list (map f xs)) xss)"
  for f :: "'a \<Rightarrow> real"
  by (induction xss) simp_all

lemma scatter_nd_nth:
  assumes ids: "shaped B L ids" and upd: "shaped B L updates" and r: "r < B" and c: "c < E"
  shows "scatter_nd (map2 zip (map (replicate L) [0..<B]) ids) updates (B, E) ! r ! c =
         copy_mass (ids ! r) (updates ! r) c"
proof -
  let ?idx = "map2 zip (map (replicate L) [0..<B]) ids"
  let ?f = "\<lambda>x. if fst x = (r, c) then snd x else (0::real)"
  have lens: "length ids = B" "length updates = B"
    using ids upd by (simp_all add: shaped_length)
  have rows: "map2 zip ?idx updates =
        map (\<lambda>b. map (\<lambda>i. ((b, ids ! b ! i), updates ! b ! i)) [0..<L]) [0..<B]"
  proof (rule nth_equalityI)
    show "length (map2 zip ?idx updates) =
          length (map (\<lambda>b. map (\<lambda>i. ((b, ids ! b ! i), updates ! b ! i)) [0..<L]) [0..<B])"
      using lens by simp
    fix b assume "b < length (map2 zip ?idx updates)"
    then have b: "b < B" using lens by simp
    then have l: "length (ids ! b) = L" "length (updates ! b) = L"
      using ids upd by (simp_all add: shaped_nth)
    have "zip (zip (replicate L b) (ids ! b)) (updates ! b) =
          map (\<lambda>i. ((b, ids ! b ! i), updates ! b ! i)) [0..<L]"
      by (rule nth_equalityI) (simp_all add: l)
    then show "map2 zip ?idx updates ! b =
          map (\<lambda>b. map (\<lambda>i. ((b, ids ! b ! i), updates ! b ! i)) [0..<L]) [0..<B] ! b"
      using b lens by simp
  qed
  have row: "\<And>b. b < B \<Longrightarrow>
      sum_list (map ?f (map (\<lambda>i. ((b, ids ! b ! i), updates ! b ! i)) [0..<L])) =
      (if b = r then copy_mass (ids ! r) (updates ! r) c else 0)"
  proof -
    fix b assume b: "b < B"
    show "sum_list (map ?f (map (\<lambda>i. ((b, ids ! b ! i), updates ! b ! i)) [0..<L])) =
      (if b = r then copy_mass (ids ! r) (updates ! r) c else 0)"
    proof (cases "b = r")
      case True
      then show ?thesis using shaped_nth [OF ids r] by (simp add: copy_mass_def comp_def cong: if_cong)
    next
      case False
      then show ?thesis by (simp add: comp_def)
    qed
  qed
  have "scatter_nd ?idx updates (B, E) ! r ! c =
        zeros B E ! r ! c + sum_list (map ?f (concat (map2 zip ?idx updates)))"
    unfolding scatter_nd_def fst_conv snd_conv
    using r c by (intro fold_scatter_update_nth) (simp_all add: zeros_def)
  also have "zeros B E ! r ! c = 0" using r c by (simp add: zeros_def)
  also have "sum_list (map ?f (concat (map2 zip ?idx updates))) =
       sum_list (map (\<lambda>b. sum_list (map ?f (map (\<lambda>i. ((b, ids ! b ! i), updates ! b ! i)) [0..<L]))) [0..<B])"
    unfolding rows sum_list_concat_map by (simp add: comp_def)
  also have "map (\<lambda>b. sum_list (map ?f (map (\<lambda>i. ((b, ids ! b ! i), updates ! b ! i)) [0..<L]))) [0..<B] =
       map (\<lambda>b. if b = r then copy_mass (ids ! r) (updates ! r) c else 0) [0..<B]"
    using row by simp
  also have "sum_list \<dots> = copy_mass (ids ! r) (updates ! r) c"
    using r by (rule sum_list_delta_upt)
  finally show ?thesis by simp
qed

lemma scatter_nd_shape:
  "length (scatter_nd indices updates (B, E)) = B \<and>
   (r < B \<longrightarrow> length (scatter_nd indices updates (B, E) ! r) = E)"
  unfolding scatter_nd_def fst_conv snd_conv
  by (simp add: fold_scatter_update_shape zeros_def)

lemma attn_len_shaped:
  "shaped B L ids \<Longrightarrow> 0 < B \<Longrightarrow> (case ids of [] \<Rightarrow> 0 | row # _ \<Rightarrow> length row) = L"
  by (cases ids) (auto simp: shaped_def)

lemma scatter_nd_row:
  assumes "shaped B L ids" and "shaped B L updates" and "r < B"
  shows "scatter_nd (map2 zip (map (replicate L) [0..<B]) ids) updates (B, E) ! r =
         map (copy_mass (ids ! r) (updates ! r)) [0..<E]"
proof (rule nth_equalityI)
  show "length (scatter_nd (map2 zip (map (replicate L) [0..<B]) ids) updates (B, E) ! r) =
        length (map (copy_mass (ids ! r) (updates ! r)) [0..<E])"
    using assms(3) scatter_nd_shape [of _ _ B E r] by simp
  fix c assume "c < length (scatter_nd (map2 zip (map (replicate L) [0..<B]) ids) updates (B, E) ! r)"
  then have "c < E" using assms(3) scatter_nd_shape [of _ _ B E r] by simp
  then show "scatter_nd (map2 zip (map (replicate L) [0..<B]) ids) updates (B, E) ! r ! c =
        map (copy_mass (ids ! r) (updates ! r)) [0..<E] ! c"
    using scatter_nd_nth [OF assms] by simp
qed

lemma calc_final_dist_length:
  "length (calc_final_dist vsize max_art_oovs B ids p_gens vocab_dists attn_dists) =
   min (length p_gens) (min (length vocab_dists) (length attn_dists))"
  by (simp add: calc_final_dist_def Let_def)

lemma calc_final_dist_nth:
  assumes pg: "\<And>p. p \<in> set p_gens \<Longrightarrow> length p = B"
    and vd: "\<And>v. v \<in> set vocab_dists \<Longrightarrow> shaped B vsize v"
    and ad: "\<And>a. a \<in> set attn_dists \<Longrightarrow> shaped B L a"
    and ids: "shaped B L ids"
    and t: "t < length p_gens" "t < length vocab_dists" "t < length attn_dists"
    and b: "b < B"
  shows "length (calc_final_dist vsize max_art_oovs B ids p_gens vocab_dists attn_dists ! t) = B \<and>
         calc_final_dist vsize max_art_oovs B ids p_gens vocab_dists attn_dists ! t ! b =
         final_dist_spec vsize max_art_oovs (ids ! b) (p_gens ! t ! b)
           (vocab_dists ! t ! b) (attn_dists ! t ! b)"
proof -
  let ?E = "vsize + max_art_oovs"
  let ?p = "p_gens ! t" let ?v = "vocab_dists ! t" let ?a = "attn_dists ! t"
  have lp: "length ?p = B" using pg t by simp
  have sv: "shaped B vsize ?v" using vd t by simp
  have sa: "shaped B L ?a" using ad t by simp
  have lv: "length ?v = B" and la: "length ?a = B"
    using sv sa by (simp_all add: shaped_length)
  have B: "0 < B" using b by simp
  define v1 where "v1 = map2 (\<lambda>p row. map ((*) p) row) ?p ?v"
  define a1 where "a1 = map2 (\<lambda>p row. map ((*) (1 - p)) row) ?p ?a"
  define ext where "ext = map2 (@) v1 (zeros B max_art_oovs)"
  define proj where
    "proj = scatter_nd (map2 zip (map (replicate L) [0..<B]) ids) a1 (B, ?E)"
  have nth: "calc_final_dist vsize max_art_oovs B ids p_gens vocab_dists attn_dists ! t =
             map2 (map2 (+)) ext proj"
    using t by (simp add: calc_final_dist_def Let_def attn_len_shaped [OF ids B]
        v1_def a1_def ext_def proj_def)
  have a1s: "shaped B L a1"
    using lp la sa by (auto simp: a1_def shaped_def list_all_length)
  have lproj: "length proj = B" using scatter_nd_shape [of _ _ B ?E 0] by (simp add: proj_def)
  have lext: "length ext = B" using lp lv by (simp add: ext_def v1_def zeros_def)
  have extb: "ext ! b = map ((*) (?p ! b)) (?v ! b) @ replicate max_art_oovs 0"
    using b lp lv by (simp add: ext_def v1_def zeros_def)
  have a1b: "a1 ! b = map ((*) (1 - ?p ! b)) (?a ! b)"
    using b lp la by (simp add: a1_def)
  have projb: "proj ! b = map (copy_mass (ids ! b) (map ((*) (1 - ?p ! b)) (?a ! b))) [0..<?E]"
    using scatter_nd_row [OF ids a1s b] by (simp add: proj_def a1b)
  have "map2 (map2 (+)) ext proj ! b = map2 (+) (ext ! b) (proj ! b)"
    using b lext lproj by simp
  then show ?thesis
    using lext lproj by (simp add: nth extb projb final_dist_spec_def)
qed

section \<open>The mass of the combined distribution\<close>

lemma sum_list_map2_add:
  "length xs = length ys \<Longrightarrow> sum_list (map2 (+) xs ys) = sum_list xs + (sum_list ys :: real)"
  by (induction xs ys rule: list_induct2) simp_all

lemma sum_list_copy_mass:
  "sum_list (map (copy_mass ids w) [0..<E]) =
   sum_list (map (\<lambda>i. if ids ! i < E then w ! i else (0::real)) [0..<length ids])"
proof -
  have "sum_list (map (copy_mass ids w) [0..<E]) =
        (\<Sum>j\<in>{0..<E}. \<Sum>i\<in>{0..<length ids}. if ids ! i = j then w ! i else 0)"
    by (simp add: copy_mass_def interv_sum_list_conv_sum_set_nat)
  also have "\<dots> = (\<Sum>i\<in>{0..<length ids}. \<Sum>j\<in>{0..<E}. if ids ! i = j then w ! i else 0)"
    by (rule sum.swap)
  also have "\<dots> = (\<Sum>i\<in>{0..<length ids}. if ids ! i < E then w ! i else 0)"
    by (rule sum.cong) (simp_all add: sum.delta')
  finally show ?thesis by (simp add: interv_sum_list_conv_sum_set_nat)
qed

lemma length_final_dist_spec:
  "length vocab = vsize \<Longrightarrow>
   length (final_dist_spec vsize max_art_oovs ids p vocab attn) = vsize + max_art_oovs"
  by (simp add: final_dist_spec_def)

lemma sum_list_final_dist_spec:
  assumes lv: "length vocab = vsize" and la: "length attn = length ids"
    and mass: "\<And>i. i < length ids \<Longrightarrow> vsize + max_art_oovs \<le> ids ! i \<Longrightarrow> attn ! i = 0"
  shows "sum_list (final_dist_spec vsize max_art_oovs ids p vocab attn) =
         p * sum_list vocab + (1 - p) * sum_list attn"
proof -
  let ?E = "vsize + max_art_oovs"
  let ?w = "map ((*) (1 - p)) attn"
  have "map (\<lambda>i. if ids ! i < ?E then ?w ! i else 0) [0..<length ids] =
        map (\<lambda>i. (1 - p) * attn ! i) [0..<length ids]"
  proof (rule map_cong [OF refl])
    fix i assume "i \<in> set [0..<length ids]"
    then have i: "i < length ids" by simp
    show "(if ids ! i < ?E then ?w ! i else 0) = (1 - p) * attn ! i"
    proof (cases "ids ! i < ?E")
      case True
      then show ?thesis using i la by simp
    next
      case False
      then have "attn ! i = 0" using mass [OF i] by simp
      with False show ?thesis by simp
    qed
  qed
  then have "sum_list (map (copy_mass ids ?w) [0..<?E]) =
             sum_list (map (\<lambda>i. (1 - p) * attn ! i) [0..<length ids])"
    by (simp only: sum_list_copy_mass)
  also have "\<dots> = (1 - p) * sum_list (map (\<lambda>i. attn ! i) [0..<length attn])"
    by (simp only: sum_list_const_mult la)
  also have "\<dots> = (1 - p) * sum_list attn" by (simp only: map_nth)
  finally have copy: "sum_list (map (copy_mass ids ?w) [0..<?E]) = (1 - p) * sum_list attn" .
  have "sum_list (final_dist_spec vsize max_art_oovs ids p vocab attn) =
        sum_list (map ((*) p) vocab @ replicate max_art_oovs 0) +
        sum_list (map (copy_mass ids ?w) [0..<?E])"
    unfolding final_dist_spec_def using lv by (intro sum_list_map2_add) simp
  also have "sum_list (map ((*) p) vocab @ replicate max_art_oovs 0) = p * sum_list vocab"
    by (simp add: sum_list_const_mult sum_list_replicate)
  finally show ?thesis using copy by simp
qed

text \<open>
  Claim C1. For every decoder step \<open>t\<close> and example \<open>b\<close>, \<open>_calc_final_dist\<close> returns the
  vocabulary distribution scaled by the step's \<open>p_gen\<close> and padded with \<open>max_art_oovs\<close>
  zeros, plus the attention distribution scaled by \<open>1 - p_gen\<close> and scatter-added into
  the slots given by the encoder positions' extended-vocabulary ids; weights sent to the
  same slot are summed (\<open>copy_mass\<close>), none overwrites another.
\<close>

theorem calc_final_dist_combines:
  assumes pg: "\<And>p. p \<in> set p_gens \<Longrightarrow> length p = batch_size"
    and vd: "\<And>v. v \<in> set vocab_dists \<Longrightarrow> shaped batch_size vsize v"
    and ad: "\<And>a. a \<in> set attn_dists \<Longrightarrow> shaped batch_size attn_len a"
    and ids: "shaped batch_size attn_len enc_batch_extend_vocab"
  shows "calc_final_dist vsize max_art_oovs batch_size enc_batch_extend_vocab
           p_gens vocab_dists attn_dists =
         map (\<lambda>t. map (\<lambda>b. final_dist_spec vsize max_art_oovs (enc_batch_extend_vocab ! b)
                               (p_gens ! t ! b) (vocab_dists ! t ! b) (attn_dists ! t ! b))
                      [0..<batch_size])
           [0..<min (length p_gens) (min (length vocab_dists) (length attn_dists))]"
proof (rule nth_equalityI)
  let ?F = "calc_final_dist vsize max_art_oovs batch_size enc_batch_extend_vocab
              p_gens vocab_dists attn_dists"
  let ?T = "min (length p_gens) (min (length vocab_dists) (length attn_dists))"
  let ?S = "\<lambda>t b. final_dist_spec vsize max_art_oovs (enc_batch_extend_vocab ! b)
                               (p_gens ! t ! b) (vocab_dists ! t ! b) (attn_dists ! t ! b)"
  show "length ?F = length (map (\<lambda>t. map (?S t) [0..<batch_size]) [0..<?T])"
    by (simp add: calc_final_dist_length)
  fix t assume "t < length ?F"
  then have t: "t < length p_gens" "t < length vocab_dists" "t < length attn_dists"
    by (simp_all add: calc_final_dist_length)
  have "?F ! t = map (?S t) [0..<batch_size]"
  proof (cases "batch_size = 0")
    case True
    then show ?thesis using t by (simp add: calc_final_dist_def Let_def zeros_def)
  next
    case False
    then have "0 < batch_size" by simp
    then have l: "length (?F ! t) = batch_size"
      using calc_final_dist_nth [OF pg vd ad ids t] by blast
    show ?thesis
    proof (rule nth_equalityI)
      show "length (?F ! t) = length (map (?S t) [0..<batch_size])" using l by simp
      fix b assume "b < length (?F ! t)"
      then have b: "b < batch_size" using l by simp
      show "?F ! t ! b = map (?S t) [0..<batch_size] ! b"
        using calc_final_dist_nth [OF pg vd ad ids t b] b by simp
    qed
  qed
  then show "?F ! t = map (\<lambda>t. map (?S t) [0..<batch_size]) [0..<?T] ! t"
    using t by simp
qed

theorem calc_final_dist_combines_witness:
  "calc_final_dist 3 2 2 [[0, 3, 3], [4, 1, 7]] [[1/2, 1/4]]
     [[[1/2, 1/4, 1/4], [1, 0, 0]]] [[[1/2, 1/4, 1/4], [1/2, 1/2, 0]]] =
   [[[1/2, 1/8, 1/8, 1/4, 0], [1/4, 3/8, 0, 0, 3/8]]]"
proof -
  have pg: "\<And>p. p \<in> set [[1/2, 1/4::real]] \<Longrightarrow> length p = 2" by simp
  have vd: "\<And>v. v \<in> set [[[1/2, 1/4, 1/4], [1, 0, 0::real]]] \<Longrightarrow> shaped 2 3 v"
    by (simp add: shaped_def)
  have ad: "\<And>a. a \<in> set [[[1/2, 1/4, 1/4], [1/2, 1/2, 0::real]]] \<Longrightarrow> shaped 2 3 a"
    by (simp add: shaped_def)
  have ids: "shaped 2 3 [[0, 3, 3], [4, 1, 7::nat]]" by (simp add: shaped_def)
  show ?thesis
    using calc_final_dist_combines [where p_gens = "[[1/2, 1/4]]"
        and vocab_dists = "[[[1/2, 1/4, 1/4], [1, 0, 0]]]"
        and attn_dists = "[[[1/2, 1/4, 1/4], [1/2, 1/2, 0]]]"
        and max_art_oovs = 2, OF pg vd ad ids]
    by (simp add: final_dist_spec_def copy_mass_def eval_nat_numeral)
qed

text \<open>
  Claim C2. At a decoder step where the vocabulary distribution sums to 1, the attention
  distribution sums to 1 with no mass on an encoder position whose extended-vocabulary id
  is \<open>vocab_size + max_art_oovs\<close> or more, and \<open>p_gen\<close> lies in \<open>[0, 1]\<close>, the distribution
  returned by \<open>_calc_final_dist\<close> has \<open>vocab_size + max_art_oovs\<close> slots and sums to 1.
\<close>

theorem calc_final_dist_sums_to_one:
  assumes pg: "\<And>p. p \<in> set p_gens \<Longrightarrow> length p = batch_size"
    and vd: "\<And>v. v \<in> set vocab_dists \<Longrightarrow> shaped batch_size vsize v"
    and ad: "\<And>a. a \<in> set attn_dists \<Longrightarrow> shaped batch_size attn_len a"
    and ids: "shaped batch_size attn_len enc_batch_extend_vocab"
    and t: "t < length p_gens" "t < length vocab_dists" "t < length attn_dists"
    and b: "b < batch_size"
    and vsum: "sum_list (vocab_dists ! t ! b) = 1"
    and asum: "sum_list (attn_dists ! t ! b) = 1"
    and mass: "\<And>i. i < attn_len \<Longrightarrow> vsize + max_art_oovs \<le> enc_batch_extend_vocab ! b ! i \<Longrightarrow>
                 attn_dists ! t ! b ! i = 0"
    and p: "0 \<le> p_gens ! t ! b" "p_gens ! t ! b \<le> 1"
  shows "length (calc_final_dist vsize max_art_oovs batch_size enc_batch_extend_vocab
                   p_gens vocab_dists attn_dists ! t ! b) = vsize + max_art_oovs \<and>
         sum_list (calc_final_dist vsize max_art_oovs batch_size enc_batch_extend_vocab
                     p_gens vocab_dists attn_dists ! t ! b) = 1"
proof -
  have sv: "shaped batch_size vsize (vocab_dists ! t)" using vd t by simp
  have sa: "shaped batch_size attn_len (attn_dists ! t)" using ad t by simp
  have lv: "length (vocab_dists ! t ! b) = vsize"
    using sv b by (rule shaped_nth)
  have li: "length (enc_batch_extend_vocab ! b) = attn_len"
    using ids b by (simp add: shaped_nth)
  have la: "length (attn_dists ! t ! b) = length (enc_batch_extend_vocab ! b)"
    using shaped_nth [OF sa b] li by simp
  have m: "\<And>i. i < length (enc_batch_extend_vocab ! b) \<Longrightarrow>
             vsize + max_art_oovs \<le> enc_batch_extend_vocab ! b ! i \<Longrightarrow> attn_dists ! t ! b ! i = 0"
    using mass li by simp
  have "sum_list (final_dist_spec vsize max_art_oovs (enc_batch_extend_vocab ! b)
           (p_gens ! t ! b) (vocab_dists ! t ! b) (attn_dists ! t ! b)) =
        p_gens ! t ! b * 1 + (1 - p_gens ! t ! b) * 1"
    using sum_list_final_dist_spec [OF lv la m] vsum asum by simp
  then show ?thesis
    using calc_final_dist_nth [OF pg vd ad ids t b] length_final_dist_spec [OF lv]
    by simp
qed

theorem calc_final_dist_sums_to_one_witness:
  "length (calc_final_dist 3 2 2 [[0, 3, 3], [4, 1, 7]] [[1/2, 1/4]]
     [[[1/2, 1/4, 1/4], [1, 0, 0]]] [[[1/2, 1/4, 1/4], [1/2, 1/2, 0]]] ! 0 ! 1) = 5 \<and>
   sum_list (calc_final_dist 3 2 2 [[0, 3, 3], [4, 1, 7]] [[1/2, 1/4]]
     [[[1/2, 1/4, 1/4], [1, 0, 0]]] [[[1/2, 1/4, 1/4], [1/2, 1/2, 0]]] ! 0 ! 1) = 1"
proof -
  let ?P = "[[1/2, 1/4::real]]"
  let ?V = "[[[1/2, 1/4, 1/4], [1, 0, 0::real]]]"
  let ?A = "[[[1/2, 1/4, 1/4], [1/2, 1/2, 0::real]]]"
  let ?I = "[[0, 3, 3], [4, 1, 7::nat]]"
  have pg: "\<And>p. p \<in> set ?P \<Longrightarrow> length p = 2" by simp
  have vd: "\<And>v. v \<in> set ?V \<Longrightarrow> shaped 2 3 v" by (simp add: shaped_def)
  have ad: "\<And>a. a \<in> set ?A \<Longrightarrow> shaped 2 3 a" by (simp add: shaped_def)
  have ids: "shaped 2 3 ?I" by (simp add: shaped_def)
  have t: "0 < length ?P" "0 < length ?V" "0 < length ?A" by simp_all
  have b: "(1::nat) < 2" by simp
  have vsum: "sum_list (?V ! 0 ! 1) = 1" and asum: "sum_list (?A ! 0 ! 1) = 1" by simp_all
  have mass: "\<And>i. i < 3 \<Longrightarrow> 3 + 2 \<le> ?I ! 1 ! i \<Longrightarrow> ?A ! 0 ! 1 ! i = 0"
    by (auto simp: less_Suc_eq numeral_3_eq_3)
  have p: "0 \<le> ?P ! 0 ! 1" "?P ! 0 ! 1 \<le> 1" by simp_all
  show ?thesis
    using calc_final_dist_sums_to_one [OF pg vd ad ids t b vsum asum mass p] by simp
qed

section \<open>The pointer-generator loss\<close>

lemma neg_log_pos:
  assumes "\<And>g. g \<in> set gs \<Longrightarrow> 0 < g"
  shows "neg_log gs = Inr (map (\<lambda>g. - ln g) gs)"
  unfolding neg_log_def using assms
  by (intro collect_map_Inr) (simp add: tf_log_def)

lemma loss_step_eq:
  assumes tl: "length target_batch = B" and dl: "length fd = B"
    and tc: "\<And>row. row \<in> set target_batch \<Longrightarrow> t < length row"
    and rng: "\<And>b. b < B \<Longrightarrow> target_batch ! b ! t < length (fd ! b)"
    and pos: "\<And>b. b < B \<Longrightarrow> 0 < fd ! b ! (target_batch ! b ! t)"
  shows "loss_step B target_batch (t, fd) =
         Inr (map (\<lambda>b. - ln (fd ! b ! (target_batch ! b ! t))) [0..<B])"
proof -
  have col: "column target_batch t = Inr (map (\<lambda>row. row ! t) target_batch)"
    using tc by (rule column_in_range)
  have z: "zip [0..<B] (map (\<lambda>row. row ! t) target_batch) =
           map (\<lambda>b. (b, target_batch ! b ! t)) [0..<B]"
    by (rule nth_equalityI) (simp_all add: tl)
  have g: "gather_nd fd (map (\<lambda>b. (b, target_batch ! b ! t)) [0..<B]) =
           map (\<lambda>b. fd ! b ! (target_batch ! b ! t)) [0..<B]"
    using rng dl by (simp add: gather_nd_def)
  have "neg_log (map (\<lambda>b. fd ! b ! (target_batch ! b ! t)) [0..<B]) =
        Inr (map (\<lambda>g. - ln g) (map (\<lambda>b. fd ! b ! (target_batch ! b ! t)) [0..<B]))"
    using pos by (intro neg_log_pos) auto
  then show ?thesis by (simp add: loss_step_def col z g comp_def)
qed

text \<open>
  Claim C3. In pointer-generator mode the loss gathers, at every decoder step, the
  probability that the extended distribution gives to the step's target token, takes its
  negative logarithm, multiplies it by the padding mask at that step, divides each
  example's sum of these by the sum of the example's padding-mask row (its unpadded
  decoder length, not the number of decoder steps), and averages over the batch.
\<close>

theorem pointer_gen_loss_true_length_average:
  assumes mne: "dec_padding_mask \<noteq> []"
    and tl: "length target_batch = length dec_padding_mask"
    and dl: "\<And>fd. fd \<in> set final_dists \<Longrightarrow> length fd = length dec_padding_mask"
    and tc: "\<And>row. row \<in> set target_batch \<Longrightarrow> length final_dists \<le> length row"
    and mc: "\<And>row. row \<in> set dec_padding_mask \<Longrightarrow> length final_dists \<le> length row"
    and rng: "\<And>t b. t < length final_dists \<Longrightarrow> b < length dec_padding_mask \<Longrightarrow>
               target_batch ! b ! t < length (final_dists ! t ! b)"
    and pos: "\<And>t b. t < length final_dists \<Longrightarrow> b < length dec_padding_mask \<Longrightarrow>
               0 < final_dists ! t ! b ! (target_batch ! b ! t)"
    and nz: "\<And>row. row \<in> set dec_padding_mask \<Longrightarrow> sum_list row \<noteq> 0"
  shows "pointer_gen_loss (length dec_padding_mask) target_batch dec_padding_mask final_dists =
         Inr (masked_average (gold_loss final_dists target_batch) (length final_dists)
                dec_padding_mask)"
proof -
  let ?B = "length dec_padding_mask"
  let ?vs = "map (\<lambda>x. map (\<lambda>b. - ln (snd x ! b ! (target_batch ! b ! fst x))) [0..<?B])
               (enumerate 0 final_dists)"
  have steps: "collect (map (loss_step ?B target_batch) (enumerate 0 final_dists)) = Inr ?vs"
  proof (rule collect_map_Inr)
    fix x assume x: "x \<in> set (enumerate 0 final_dists)"
    obtain t fd where td: "x = (t, fd)" by (cases x)
    with x have t: "t < length final_dists" and d: "fd = final_dists ! t"
      by (simp_all add: in_set_enumerate_eq)
    have "loss_step ?B target_batch (t, fd) =
          Inr (map (\<lambda>b. - ln (fd ! b ! (target_batch ! b ! t))) [0..<?B])"
    proof (rule loss_step_eq [OF tl])
      show "length fd = ?B" using dl t d by simp
      show "\<And>row. row \<in> set target_batch \<Longrightarrow> t < length row" using tc t by fastforce
      show "\<And>b. b < ?B \<Longrightarrow> target_batch ! b ! t < length (fd ! b)" using rng t d by simp
      show "\<And>b. b < ?B \<Longrightarrow> 0 < fd ! b ! (target_batch ! b ! t)" using pos t d by simp
    qed
    with td show "loss_step ?B target_batch x =
          Inr (map (\<lambda>b. - ln (snd x ! b ! (target_batch ! b ! fst x))) [0..<?B])"
      by simp
  qed
  have lvs: "length ?vs = length final_dists" by simp
  have len: "\<And>v. v \<in> set ?vs \<Longrightarrow> length v = ?B" by auto
  have cols: "\<And>row. row \<in> set dec_padding_mask \<Longrightarrow> length ?vs \<le> length row"
    using mc by simp
  have "mask_and_avg ?vs dec_padding_mask =
        Inr (masked_average (\<lambda>t b. ?vs ! t ! b) (length ?vs) dec_padding_mask)"
    using mne len cols nz by (rule mask_and_avg_masked_average)
  also have "masked_average (\<lambda>t b. ?vs ! t ! b) (length ?vs) dec_padding_mask =
             masked_average (gold_loss final_dists target_batch) (length final_dists)
               dec_padding_mask"
    unfolding lvs
    by (rule masked_average_cong) (simp add: gold_loss_def nth_enumerate_eq)
  finally show ?thesis by (simp add: pointer_gen_loss_def steps)
qed

theorem pointer_gen_loss_true_length_average_witness:
  "pointer_gen_loss 2 [[1, 0, 2], [0, 0, 0]] [[1, 1, 0], [1, 0, 0]]
     [[[1/2, 1/2, 1/2], [1/2, 1/2, 1/2]], [[1/4, 1, 1], [1, 1, 1]],
      [[1/8, 1/8, 1/8], [1/8, 1/8, 1/8]]] =
   Inr (((- ln (1/2) - ln (1/4)) / 2 + (- ln (1/2)) / 1) / 2)"
proof -
  let ?T = "[[1, 0, 2], [0, 0, 0::nat]]"
  let ?M = "[[1, 1, 0], [1, 0, 0::real]]"
  let ?F = "[[[1/2, 1/2, 1/2], [1/2, 1/2, 1/2]], [[1/4, 1, 1], [1, 1, 1]],
      [[1/8, 1/8, 1/8], [1/8, 1/8, 1/8::real]]]"
  have mne: "?M \<noteq> []" by simp
  have tl: "length ?T = length ?M" by simp
  have dl: "\<And>fd. fd \<in> set ?F \<Longrightarrow> length fd = length ?M" by auto
  have tc: "\<And>row. row \<in> set ?T \<Longrightarrow> length ?F \<le> length row" by auto
  have mc: "\<And>row. row \<in> set ?M \<Longrightarrow> length ?F \<le> length row" by auto
  have rng: "\<And>t b. t < length ?F \<Longrightarrow> b < length ?M \<Longrightarrow> ?T ! b ! t < length (?F ! t ! b)"
    by (auto simp: less_Suc_eq)
  have pos: "\<And>t b. t < length ?F \<Longrightarrow> b < length ?M \<Longrightarrow> 0 < ?F ! t ! b ! (?T ! b ! t)"
    by (auto simp: less_Suc_eq)
  have nz: "\<And>row. row \<in> set ?M \<Longrightarrow> sum_list row \<noteq> 0" by auto
  have two: "length ?M = 2" by simp
  show ?thesis
    using pointer_gen_loss_true_length_average [OF mne tl dl tc mc rng pos nz]
    unfolding two
    by (simp add: masked_average_def gold_loss_def)
qed

section \<open>Decoding one step\<close>

lemma collect_Inr_length:
  "collect xs = Inr ys \<Longrightarrow> length ys = length xs"
  by (induction xs arbitrary: ys) (auto split: sum.splits)

lemma collect_Inr_nth:
  "collect xs = Inr ys \<Longrightarrow> i < length xs \<Longrightarrow> xs ! i = Inr (ys ! i)"
proof (induction xs arbitrary: ys i)
  case Nil
  then show ?case by simp
next
  case (Cons x xs)
  then show ?case by (cases i) (auto split: sum.splits)
qed

lemma tf_log_mono: "x \<le> y \<Longrightarrow> tf_log x \<le> tf_log y"
  by (auto simp: tf_log_def)

lemma top_k_row_props:
  assumes "top_k_row row k = Inr (probs, ids)"
  shows "length probs = k \<and> length ids = k \<and>
         (\<forall>i j. i \<le> j \<and> j < k \<longrightarrow> probs ! j \<le> probs ! i)"
proof -
  let ?f = "\<lambda>(i::nat, x::real). - x"
  let ?s = "sort_key ?f (enumerate 0 row)"
  from assms have k: "k \<le> length row" and p: "probs = map snd (take k ?s)"
    and i: "ids = map fst (take k ?s)"
    by (auto simp: top_k_row_def Let_def split: if_splits)
  have ls: "length ?s = length row" by simp
  have "sorted (map ?f ?s)" by (rule sorted_sort_key)
  then have "sorted (take k (map ?f ?s))" by (rule sorted_wrt_take)
  then have srt: "sorted (map ?f (take k ?s))" by (simp add: take_map)
  have neg: "map ?f (take k ?s) = map uminus probs"
    by (simp add: p case_prod_unfold)
  have "\<forall>i j. i \<le> j \<and> j < k \<longrightarrow> probs ! j \<le> probs ! i"
  proof (intro allI impI)
    fix i j assume ij: "i \<le> j \<and> j < k"
    have lp: "length probs = k" using k ls by (simp add: p)
    from srt neg have "sorted (map uminus probs)" by simp
    then have "map uminus probs ! i \<le> map uminus probs ! j"
      using ij lp by (intro sorted_nth_mono) simp_all
    then show "probs ! j \<le> probs ! i" using ij lp by simp
  qed
  then show ?thesis using k ls by (simp add: p i)
qed

lemma top_k_props:
  assumes "top_k input k = Inr (probs, ids)"
  shows "length probs = length input \<and> length ids = length input \<and>
         (\<forall>r < length input. length (probs ! r) = k \<and> length (ids ! r) = k \<and>
            (\<forall>i j. i \<le> j \<and> j < k \<longrightarrow> probs ! r ! j \<le> probs ! r ! i))"
proof -
  from assms obtain rows where c: "collect (map (\<lambda>row. top_k_row row k) input) = Inr rows"
    and p: "probs = map fst rows" and i: "ids = map snd rows"
    by (auto simp: top_k_def split: sum.splits)
  have l: "length rows = length input" using collect_Inr_length [OF c] by simp
  have "\<forall>r < length input. length (probs ! r) = k \<and> length (ids ! r) = k \<and>
            (\<forall>i j. i \<le> j \<and> j < k \<longrightarrow> probs ! r ! j \<le> probs ! r ! i)"
  proof (intro allI impI)
    fix r assume r: "r < length input"
    then have "top_k_row (input ! r) k = Inr (rows ! r)"
      using collect_Inr_nth [OF c, of r] by simp
    then have "top_k_row (input ! r) k = Inr (probs ! r, ids ! r)"
      using r l by (simp add: p i)
    then show "length (probs ! r) = k \<and> length (ids ! r) = k \<and>
            (\<forall>i j. i \<le> j \<and> j < k \<longrightarrow> probs ! r ! j \<le> probs ! r ! i)"
      by (rule top_k_row_props)
  qed
  then show ?thesis using l by (simp add: p i)
qed

text \<open>
  Claim C8. In decode mode the model asserts that \<open>final_dists\<close> holds exactly one
  distribution. When it produces \<open>_topk_ids\<close> and \<open>_topk_log_probs\<close> from a distribution
  with \<open>batch_size\<close> rows of probabilities, both have shape \<open>(batch_size, 2 * batch_size)\<close>
  and the log-probabilities do not increase along the second axis.
\<close>

theorem decode_topk_shape_sorted:
  "(length final_dists \<noteq> 1 \<longrightarrow> decode_topk batch_size final_dists = Inl AssertionError) \<and>
   (decode_topk batch_size final_dists = Inr (topk_ids, topk_log_probs) \<and>
    (\<forall>fd\<in>set final_dists. length fd = batch_size \<and>
       (\<forall>row\<in>set fd. \<forall>x\<in>set row. 0 \<le> x)) \<longrightarrow>
      length final_dists = 1 \<and>
      shaped batch_size (2 * batch_size) topk_ids \<and>
      shaped batch_size (2 * batch_size) topk_log_probs \<and>
      (\<forall>r i j. r < batch_size \<and> i \<le> j \<and> j < 2 * batch_size \<longrightarrow>
         topk_log_probs ! r ! j \<le> topk_log_probs ! r ! i))"
proof (intro conjI impI)
  assume "length final_dists \<noteq> 1"
  then show "decode_topk batch_size final_dists = Inl AssertionError"
    by (simp add: decode_topk_def)
next
  assume a: "decode_topk batch_size final_dists = Inr (topk_ids, topk_log_probs) \<and>
    (\<forall>fd\<in>set final_dists. length fd = batch_size \<and>
       (\<forall>row\<in>set fd. \<forall>x\<in>set row. 0 \<le> x))"
  then have one: "length final_dists = 1"
    by (auto simp: decode_topk_def split: if_splits)
  then have "final_dists ! 0 \<in> set final_dists" by simp
  with a have lb: "length (final_dists ! 0) = batch_size" by blast
  from a one obtain probs where tk: "top_k (final_dists ! 0) (batch_size * 2) = Inr (probs, topk_ids)"
    and lp: "topk_log_probs = map (map tf_log) probs"
    by (auto simp: decode_topk_def split: sum.splits prod.splits)
  note P = top_k_props [OF tk, unfolded lb]
  have lpr: "length probs = batch_size" and li: "length topk_ids = batch_size"
    using P by simp_all
  have rows: "\<And>r. r < batch_size \<Longrightarrow> length (probs ! r) = 2 * batch_size \<and>
      length (topk_ids ! r) = 2 * batch_size \<and>
      (\<forall>i j. i \<le> j \<and> j < 2 * batch_size \<longrightarrow> probs ! r ! j \<le> probs ! r ! i)"
    using P by (simp add: mult.commute)
  show "length final_dists = 1" by (rule one)
  show "shaped batch_size (2 * batch_size) topk_ids"
    using li rows by (simp add: shaped_def list_all_length)
  show "shaped batch_size (2 * batch_size) topk_log_probs"
    using lpr rows by (simp add: shaped_def list_all_length lp)
  show "\<forall>r i j. r < batch_size \<and> i \<le> j \<and> j < 2 * batch_size \<longrightarrow>
         topk_log_probs ! r ! j \<le> topk_log_probs ! r ! i"
  proof (intro allI impI)
    fix r i j assume h: "r < batch_size \<and> i \<le> j \<and> j < 2 * batch_size"
    then have "probs ! r ! j \<le> probs ! r ! i" using rows by blast
    then have "tf_log (probs ! r ! j) \<le> tf_log (probs ! r ! i)" by (rule tf_log_mono)
    moreover have "length (probs ! r) = 2 * batch_size" using rows h by blast
    ultimately show "topk_log_probs ! r ! j \<le> topk_log_probs ! r ! i"
      using h lpr by (simp add: lp)
  qed
qed

theorem decode_topk_shape_sorted_witness:
  "decode_topk 2 [[[1/10, 2/10, 3/10, 4/10, 0], [1/4, 1/4, 0, 1/2, 0]]] =
     Inr ([[3, 2, 1, 0], [3, 0, 1, 2]],
          [[Some (ln (4/10)), Some (ln (3/10)), Some (ln (2/10)), Some (ln (1/10))],
           [Some (ln (1/2)), Some (ln (1/4)), Some (ln (1/4)), None]]) \<and>
   decode_topk 2 [] = Inl AssertionError \<and>
   shaped 2 (2 * 2) [[3, 2, 1, 0], [3, 0, 1, 2::nat]] \<and>
   Some (ln (1/10)) \<le> Some (ln (4/10 :: real)) \<and>
   None \<le> Some (ln (1/2 :: real))"
proof -
  let ?F = "[[[1/10, 2/10, 3/10, 4/10, 0], [1/4, 1/4, 0, 1/2, 0::real]]]"
  let ?I = "[[3, 2, 1, 0], [3, 0, 1, 2::nat]]"
  let ?L = "[[Some (ln (4/10)), Some (ln (3/10)), Some (ln (2/10)), Some (ln (1/10))],
           [Some (ln (1/2)), Some (ln (1/4)), Some (ln (1/4)), None :: real option]]"
  have run: "decode_topk 2 ?F = Inr (?I, ?L)"
    by (simp add: decode_topk_def top_k_def top_k_row_def tf_log_def enumerate_simps)
  have hyp: "\<forall>fd\<in>set ?F. length fd = 2 \<and> (\<forall>row\<in>set fd. \<forall>x\<in>set row. 0 \<le> x)"
    by simp
  have all: "length ?F = 1 \<and> shaped 2 (2 * 2) ?I \<and> shaped 2 (2 * 2) ?L \<and>
      (\<forall>r i j. r < 2 \<and> i \<le> j \<and> j < 2 * 2 \<longrightarrow> ?L ! r ! j \<le> ?L ! r ! i)"
    using decode_topk_shape_sorted [of ?F 2 ?I ?L] run hyp by blast
  then have "?L ! 0 ! 3 \<le> ?L ! 0 ! 0" and "?L ! 1 ! 3 \<le> ?L ! 1 ! 0" by simp_all
  moreover have "decode_topk 2 [] = Inl AssertionError"
    using decode_topk_shape_sorted [of "[]" 2] by simp
  ultimately show ?thesis using run all by simp
qed

section \<open>The loss that is minimized\<close>

text \<open>
  With coverage the training step minimizes \<open>self._total_loss\<close>, which is
  \<open>self._loss + cov_loss_wt * self._coverage_loss\<close>; without, \<open>self._loss\<close>.
\<close>

lemma loss_to_minimize_add_loss:
  assumes "add_loss h variables sequence_loss target_batch dec_padding_mask final_dists attn_dists = Inr m"
  shows "loss_to_minimize h m =
         Inr (if hps_coverage h then m_loss m + hps_cov_loss_wt h * the (m_coverage_loss m)
              else m_loss m)"
  using assms
  by (auto simp: add_loss_def loss_to_minimize_def Let_def split: sum.splits if_splits)

text \<open>
  With regularization \<open>self._loss\<close> grows by the regularizer applied to the collected
  regularization losses: for every regularized variable \<open>w\<close>, \<open>beta_l2\<close> times the L2 loss
  of the scalar \<open>beta_l2 * l2_loss w\<close>.
\<close>

lemma map_filter_all_Some: "List.map_filter (\<lambda>x. Some (f x)) xs = map f xs"
  by (induction xs) (simp_all add: List.map_filter_simps)

lemma add_loss_penalty:
  assumes run: "add_loss h variables sequence_loss target_batch dec_padding_mask final_dists attn_dists = Inr m"
    and reg: "hps_use_regularizer h"
    and base: "\<not> hps_pointer_gen h" "sequence_loss = Inr l0"
  shows "m_loss m = l0 + sum_list (map (\<lambda>w. hps_beta_l2 h * ((hps_beta_l2 h * l2_loss w) * (hps_beta_l2 h * l2_loss w) / 2)) variables)"
proof -
  from run reg have pos: "0 < hps_beta_l2 h \<or> hps_beta_l2 h = 0"
    by (auto simp: add_loss_def init_regularizer_def l2_regularizer_def split: if_splits)
  show ?thesis
  proof (cases "hps_beta_l2 h = 0")
    case True
    with run reg show ?thesis
      by (simp add: add_loss_def init_regularizer_def l2_regularizer_def
          regularization_losses_def apply_regularization_def List.map_filter_def)
  next
    case False
    with pos have "0 < hps_beta_l2 h" by simp
    with run reg base show ?thesis
      by (auto simp: add_loss_def init_regularizer_def l2_regularizer_def
          regularization_losses_def apply_regularization_def map_filter_all_Some
          l2_loss_def comp_def Let_def split: if_splits sum.splits)
  qed
qed

text \<open>
  Claim C7. The claim has the training step minimize the base loss plus, with
  regularization, the sum of the L2 penalties of the regularized weights scaled by
  \<open>beta_l2\<close>, plus, with coverage, \<open>cov_loss_wt\<close> times the coverage loss. The coverage part
  holds (\<open>loss_to_minimize_add_loss\<close>). The regularization part does not: with baseline
  loss 3, \<open>beta_l2 = 1\<close> and one regularized weight tensor with entries 1 and 1, whose L2
  penalty is 1, the code minimizes \<open>3 + 1/2\<close>, where the claim gives \<open>3 + 1\<close>.
\<close>

theorem add_loss_regularizes_the_penalties:
  "add_loss \<lparr>hps_batch_size = 1, hps_pointer_gen = False, hps_coverage = False,
             hps_cov_loss_wt = 1, hps_use_regularizer = True, hps_beta_l2 = 1,
             hps_use_label_information = False\<rparr>
     [[1, 1]] (Inr 3) [] [] [] [] =
     Inr \<lparr>m_loss = 3 + 1/2, m_coverage_loss = None, m_total_loss = None\<rparr> \<and>
   loss_to_minimize \<lparr>hps_batch_size = 1, hps_pointer_gen = False, hps_coverage = False,
             hps_cov_loss_wt = 1, hps_use_regularizer = True, hps_beta_l2 = 1,
             hps_use_label_information = False\<rparr>
     \<lparr>m_loss = 3 + 1/2, m_coverage_loss = None, m_total_loss = None\<rparr> = Inr (3 + 1/2) \<and>
   3 + l2_penalty_spec \<lparr>hps_batch_size = 1, hps_pointer_gen = False, hps_coverage = False,
             hps_cov_loss_wt = 1, hps_use_regularizer = True, hps_beta_l2 = 1,
             hps_use_label_information = False\<rparr> [[1, 1]] = 3 + 1"
  by (simp add: add_loss_def init_regularizer_def l2_regularizer_def
      regularization_losses_def apply_regularization_def List.map_filter_simps
      l2_loss_def loss_to_minimize_def l2_penalty_spec_def)

section \<open>The graph-convolution layer\<close>

text \<open>
  Whatever the gates of the incoming and outgoing arcs are, the two blocks return the
  ungated products \<open>in_t\<close> and \<open>out_t\<close>.
\<close>

lemma in_arcs_gating_discarded:
  "in_arcs p u gcn_dim batch_size lbl adj_in True dropout pre_com_o_in pre_com_o_gin = Inr t \<Longrightarrow>
   in_arcs p u gcn_dim batch_size lbl adj_in False dropout pre_com_o_in pre_com_o_gin = Inr t"
  by (auto simp: in_arcs_def Let_def split: sum.splits if_splits)

lemma out_arcs_gating_discarded:
  "out_arcs p u gcn_dim batch_size lbl adj_out True dropout pre_com_o_out pre_com_o_gout = Inr t \<Longrightarrow>
   out_arcs p u gcn_dim batch_size lbl adj_out False dropout pre_com_o_out pre_com_o_gout = Inr t"
  by (auto simp: out_arcs_def Let_def split: sum.splits if_splits)



text \<open>
  Claim C10. The result of \<open>_add_gcn_layer\<close> does not depend on its keyword parameter
  \<open>use_label_information\<close>: two calls that differ in this parameter only return the same.
  Whether the labels collapse to a single one is decided by the hyperparameter
  \<open>self._hps.use_label_information\<close> (\<open>add_gcn_layer_single_label\<close>).
\<close>

theorem add_gcn_layer_ignores_use_label_information:
  "add_gcn_layer h vars u gcn_in in_dim gcn_dim batch_size max_nodes max_labels adj_in adj_out
     neighbour_count num_layers use_gating use_skip use_normalization dropout name a =
   add_gcn_layer h vars u gcn_in in_dim gcn_dim batch_size max_nodes max_labels adj_in adj_out
     neighbour_count num_layers use_gating use_skip use_normalization dropout name b"
  by (simp add: add_gcn_layer_def)

lemma add_gcn_layer_single_label:
  "\<not> hps_use_label_information h \<Longrightarrow>
   add_gcn_layer h vars u gcn_in in_dim gcn_dim batch_size max_nodes max_labels adj_in adj_out
     neighbour_count num_layers use_gating use_skip use_normalization dropout name a =
   add_gcn_layer h vars u gcn_in in_dim gcn_dim batch_size max_nodes 1 adj_in adj_out
     neighbour_count num_layers use_gating use_skip use_normalization dropout name a"
  by (simp add: add_gcn_layer_def)

end
